theory Spec2Isabelle
  imports Main "HOL-Library.Word"
begin

section \<open>The contract ImmuneSystemTwinFHE\<close>

text \<open>
  A shallow embedding of the Solidity contract \<^verbatim>\<open>ImmuneSystemTwinFHE\<close>
  (pragma \<^verbatim>\<open>^0.8.24\<close>). Storage is a record, every external function takes the
  storage, \<^verbatim>\<open>msg.sender\<close> and \<^verbatim>\<open>block.timestamp\<close> where it reads them, and returns
  either the error it reverts with or the new storage together with the events it emits.
  Arithmetic on \<^verbatim>\<open>uint256\<close> is checked, as it is from Solidity 0.8 on: an overflow
  reverts with \<^verbatim>\<open>Panic(0x11)\<close>.
\<close>

subsection \<open>Types\<close>

type_synonym address = "160 word"
type_synonym uint256 = "256 word"
type_synonym bytes32 = "256 word"
type_synonym bytes = "8 word list"

text \<open>An \<^verbatim>\<open>euint32\<close> is a handle to a ciphertext (a \<^verbatim>\<open>bytes32\<close> in the FHE library).\<close>

type_synonym euint32 = "256 word"

datatype error =
    NotOwner
  | NotProvider
  | Paused
  | CooldownActive
  | BatchClosedOrInvalid
  | InvalidBatchId
  | ReplayAttempt
  | StateMismatch
  | InvalidProof
  | NotInitialized
  | Panic_0x11  \<comment> \<open>checked arithmetic overflowed\<close>

datatype event =
    OwnershipTransferred address address
  | ProviderAdded address
  | ProviderRemoved address
  | ContractPaused address
  | ContractUnpaused address
  | CooldownSecondsSet uint256 uint256
  | BatchOpened uint256
  | BatchClosed uint256 uint256
  | DataSubmitted address uint256 uint256
  | DecryptionRequested uint256 uint256 bytes32
  | DecryptionCompleted uint256 uint256 "uint256 list"

record Batch =
  id_batch :: uint256
  totalEncryptedDataPoints :: uint256
  closed :: bool

record EncryptedImmuneData =
  antigenAffinity :: euint32
  antibodyCount :: euint32
  tCellEffectiveness :: euint32

record DecryptionContext =
  batchId :: uint256
  stateHash :: bytes32
  processed :: bool

record contract =
  owner :: address
  isProvider :: "address \<Rightarrow> bool"
  paused :: bool
  cooldownSeconds :: uint256
  lastSubmissionTime :: "address \<Rightarrow> uint256"
  lastDecryptionRequestTime :: "address \<Rightarrow> uint256"
  currentBatchId :: uint256
  batches :: "uint256 \<Rightarrow> Batch"
  batchEncryptedData :: "uint256 \<Rightarrow> EncryptedImmuneData list"
  decryptionContexts :: "uint256 \<Rightarrow> DecryptionContext"

text \<open>
  The library \<^verbatim>\<open>@fhevm/solidity/lib/FHE.sol\<close>, \<^verbatim>\<open>keccak256\<close> and \<^verbatim>\<open>abi.encode\<close>
  are not part of the contract; they are parameters of the model, taken as functions
  that return:
  \<^item> \<open>asEuint32_0\<close> is \<^verbatim>\<open>FHE.asEuint32(0)\<close>, \<open>fheAdd a b\<close> is \<^verbatim>\<open>a.fheAdd(b)\<close>,
    \<open>toBytes32 x\<close> is \<^verbatim>\<open>x.toBytes32()\<close>, \<open>isInitialized x\<close> is \<^verbatim>\<open>x.isInitialized()\<close>;
  \<^item> \<open>checkSignatures\<close> is \<^verbatim>\<open>FHE.checkSignatures\<close>;
  \<^item> \<open>keccak256_abi_encode cts a\<close> is \<^verbatim>\<open>keccak256(abi.encode(cts, a))\<close> and
    \<open>this\<close> is \<^verbatim>\<open>address(this)\<close>.
  The request id that \<^verbatim>\<open>FHE.requestDecryption\<close> returns is chosen by the oracle; it is
  an argument of \<open>requestBatchAnalysis\<close>.
\<close>

record fhe =
  asEuint32_0 :: euint32
  fheAdd :: "euint32 \<Rightarrow> euint32 \<Rightarrow> euint32"
  toBytes32 :: "euint32 \<Rightarrow> bytes32"
  isInitialized :: "euint32 \<Rightarrow> bool"
  checkSignatures :: "uint256 \<Rightarrow> bytes \<Rightarrow> bytes \<Rightarrow> bool"
  keccak256_abi_encode :: "bytes32 list \<Rightarrow> address \<Rightarrow> bytes32"
  this :: address

subsection \<open>Checked arithmetic and reverts\<close>

definition checked_add :: "uint256 \<Rightarrow> uint256 \<Rightarrow> uint256 option" where
  "checked_add a b = (if unat a + unat b < 2 ^ 256 then Some (a + b) else None)"

text \<open>
  A modifier either reverts with an error or lets the rest of the call run:
  \<open>require_ok m k\<close> is the call \<open>k\<close> behind the modifier \<open>m\<close>.
\<close>

definition require_ok :: "error option \<Rightarrow> error + 'a \<Rightarrow> error + 'a" where
  "require_ok m k = (case m of Some e \<Rightarrow> Inl e | None \<Rightarrow> k)"

subsection \<open>Modifiers\<close>

definition onlyOwner :: "contract \<Rightarrow> address \<Rightarrow> error option" where
  "onlyOwner st sender = (if sender \<noteq> owner st then Some NotOwner else None)"

definition onlyProvider :: "contract \<Rightarrow> address \<Rightarrow> error option" where
  "onlyProvider st sender = (if \<not> isProvider st sender then Some NotProvider else None)"

definition whenNotPaused :: "contract \<Rightarrow> error option" where
  "whenNotPaused st = (if paused st then Some Paused else None)"

definition checkSubmissionCooldown :: "contract \<Rightarrow> address \<Rightarrow> uint256 \<Rightarrow> error option" where
  "checkSubmissionCooldown st sender timestamp =
     (case checked_add (lastSubmissionTime st sender) (cooldownSeconds st) of
        None \<Rightarrow> Some Panic_0x11
      | Some limit \<Rightarrow> if timestamp < limit then Some CooldownActive else None)"

definition checkDecryptionCooldown :: "contract \<Rightarrow> address \<Rightarrow> uint256 \<Rightarrow> error option" where
  "checkDecryptionCooldown st sender timestamp =
     (case checked_add (lastDecryptionRequestTime st sender) (cooldownSeconds st) of
        None \<Rightarrow> Some Panic_0x11
      | Some limit \<Rightarrow> if timestamp < limit then Some CooldownActive else None)"

subsection \<open>Construction and access control\<close>

definition constructor :: "address \<Rightarrow> contract \<times> event list" where
  "constructor sender =
     (\<lparr> owner = sender,
        isProvider = (\<lambda>_. False),
        paused = False,
        cooldownSeconds = 0,
        lastSubmissionTime = (\<lambda>_. 0),
        lastDecryptionRequestTime = (\<lambda>_. 0),
        currentBatchId = 0,
        batches = (\<lambda>_. \<lparr> id_batch = 0, totalEncryptedDataPoints = 0, closed = False \<rparr>),
        batchEncryptedData = (\<lambda>_. []),
        decryptionContexts = (\<lambda>_. \<lparr> batchId = 0, stateHash = 0, processed = False \<rparr>) \<rparr>,
      [OwnershipTransferred 0 sender])"

definition transferOwnership ::
  "contract \<Rightarrow> address \<Rightarrow> address \<Rightarrow> error + contract \<times> event list" where
  "transferOwnership st sender newOwner =
     require_ok (onlyOwner st sender)
       (let previousOwner = owner st
        in Inr (st\<lparr> owner := newOwner \<rparr>, [OwnershipTransferred previousOwner newOwner]))"

definition addProvider ::
  "contract \<Rightarrow> address \<Rightarrow> address \<Rightarrow> error + contract \<times> event list" where
  "addProvider st sender provider =
     require_ok (onlyOwner st sender)
       (if \<not> isProvider st provider
        then Inr (st\<lparr> isProvider := (isProvider st)(provider := True) \<rparr>, [ProviderAdded provider])
        else Inr (st, []))"

definition removeProvider ::
  "contract \<Rightarrow> address \<Rightarrow> address \<Rightarrow> error + contract \<times> event list" where
  "removeProvider st sender provider =
     require_ok (onlyOwner st sender)
       (if isProvider st provider
        then Inr (st\<lparr> isProvider := (isProvider st)(provider := False) \<rparr>, [ProviderRemoved provider])
        else Inr (st, []))"

definition setPaused ::
  "contract \<Rightarrow> address \<Rightarrow> bool \<Rightarrow> error + contract \<times> event list" where
  "setPaused st sender p =
     require_ok (onlyOwner st sender)
       (if p \<noteq> paused st
        then Inr (st\<lparr> paused := p \<rparr>,
                  [if p then ContractPaused sender else ContractUnpaused sender])
        else Inr (st, []))"

definition setCooldownSeconds ::
  "contract \<Rightarrow> address \<Rightarrow> uint256 \<Rightarrow> error + contract \<times> event list" where
  "setCooldownSeconds st sender newCooldownSeconds =
     require_ok (onlyOwner st sender)
       (let oldCooldownSeconds = cooldownSeconds st
        in Inr (st\<lparr> cooldownSeconds := newCooldownSeconds \<rparr>,
                [CooldownSecondsSet oldCooldownSeconds newCooldownSeconds]))"

subsection \<open>Batches\<close>

definition openBatch :: "contract \<Rightarrow> address \<Rightarrow> error + contract \<times> event list" where
  "openBatch st sender =
     require_ok (onlyOwner st sender)
    (require_ok (whenNotPaused st)
       (case checked_add (currentBatchId st) 1 of
          None \<Rightarrow> Inl Panic_0x11
        | Some n \<Rightarrow>
            Inr (st\<lparr> currentBatchId := n,
                     batches := (batches st)
                       (n := \<lparr> id_batch = n, totalEncryptedDataPoints = 0, closed = False \<rparr>) \<rparr>,
                 [BatchOpened n])))"

definition closeBatch ::
  "contract \<Rightarrow> address \<Rightarrow> uint256 \<Rightarrow> error + contract \<times> event list" where
  "closeBatch st sender b =
     require_ok (onlyOwner st sender)
    (require_ok (whenNotPaused st)
       (if b = 0 \<or> b > currentBatchId st \<or> closed (batches st b) then Inl InvalidBatchId
        else Inr (st\<lparr> batches := (batches st)(b := (batches st b)\<lparr> closed := True \<rparr>) \<rparr>,
                  [BatchClosed b (totalEncryptedDataPoints (batches st b))])))"

definition initIfNeeded :: "fhe \<Rightarrow> euint32 \<Rightarrow> error option" where
  "initIfNeeded env x = (if \<not> isInitialized env x then Some NotInitialized else None)"

definition submitEncryptedData ::
  "fhe \<Rightarrow> contract \<Rightarrow> address \<Rightarrow> uint256 \<Rightarrow> euint32 \<Rightarrow> euint32 \<Rightarrow> euint32
     \<Rightarrow> error + contract \<times> event list" where
  "submitEncryptedData env st sender timestamp affinity count effectiveness =
     require_ok (onlyProvider st sender)
    (require_ok (whenNotPaused st)
    (require_ok (checkSubmissionCooldown st sender timestamp)
    (require_ok (initIfNeeded env affinity)
    (require_ok (initIfNeeded env count)
    (require_ok (initIfNeeded env effectiveness)
       (let cur = currentBatchId st in
        if closed (batches st cur) then Inl BatchClosedOrInvalid
        else
          case checked_add (totalEncryptedDataPoints (batches st cur)) 1 of
            None \<Rightarrow> Inl Panic_0x11
          | Some n \<Rightarrow>
              Inr (st\<lparr> batchEncryptedData := (batchEncryptedData st)
                         (cur := batchEncryptedData st cur @
                            [\<lparr> antigenAffinity = affinity, antibodyCount = count,
                               tCellEffectiveness = effectiveness \<rparr>]),
                       batches := (batches st)
                         (cur := (batches st cur)\<lparr> totalEncryptedDataPoints := n \<rparr>),
                       lastSubmissionTime := (lastSubmissionTime st)(sender := timestamp) \<rparr>,
                   [DataSubmitted sender cur 1])))))))"

subsection \<open>Aggregation and the decryption round trip\<close>

definition hashCiphertexts :: "fhe \<Rightarrow> bytes32 list \<Rightarrow> bytes32" where
  "hashCiphertexts env cts = keccak256_abi_encode env cts (this env)"

text \<open>
  The \<^verbatim>\<open>for\<close> loop of \<open>requestBatchAnalysis\<close>: \<open>i\<close> is the loop counter, the triple
  holds \<^verbatim>\<open>totalAntigenAffinity\<close>, \<^verbatim>\<open>totalAntibodyCount\<close> and
  \<^verbatim>\<open>totalTCellEffectiveness\<close>. It is run with \<open>dataCount = length ds\<close>, so the array
  access is in range.
\<close>

function requestBatchAnalysis_loop ::
  "fhe \<Rightarrow> EncryptedImmuneData list \<Rightarrow> nat \<Rightarrow> nat \<Rightarrow> euint32 \<times> euint32 \<times> euint32
     \<Rightarrow> euint32 \<times> euint32 \<times> euint32" where
  "requestBatchAnalysis_loop env ds dataCount i (ta, tb, tc) =
     (if i < dataCount
      then let d = ds ! i
           in requestBatchAnalysis_loop env ds dataCount (i + 1)
                (fheAdd env ta (antigenAffinity d),
                 fheAdd env tb (antibodyCount d),
                 fheAdd env tc (tCellEffectiveness d))
      else (ta, tb, tc))"
  by pat_completeness auto
termination
  by (relation "measure (\<lambda>(env, ds, dataCount, i, t). dataCount - i)") auto

declare requestBatchAnalysis_loop.simps [simp del]

definition requestBatchAnalysis_cts :: "fhe \<Rightarrow> contract \<Rightarrow> uint256 \<Rightarrow> bytes32 list" where
  "requestBatchAnalysis_cts env st b =
     (let dataCount = length (batchEncryptedData st b) in
      case requestBatchAnalysis_loop env (batchEncryptedData st b) dataCount 0
             (asEuint32_0 env, asEuint32_0 env, asEuint32_0 env) of
        (totalAntigenAffinity, totalAntibodyCount, totalTCellEffectiveness) \<Rightarrow>
          [toBytes32 env totalAntigenAffinity,
           toBytes32 env totalAntibodyCount,
           toBytes32 env totalTCellEffectiveness])"

definition requestBatchAnalysis ::
  "fhe \<Rightarrow> contract \<Rightarrow> address \<Rightarrow> uint256 \<Rightarrow> uint256 \<Rightarrow> uint256
     \<Rightarrow> error + contract \<times> event list" where
  "requestBatchAnalysis env st sender timestamp b requestId =
     require_ok (onlyOwner st sender)
    (require_ok (whenNotPaused st)
    (require_ok (checkDecryptionCooldown st sender timestamp)
       (if b = 0 \<or> b > currentBatchId st \<or> \<not> closed (batches st b) then Inl InvalidBatchId
        else if totalEncryptedDataPoints (batches st b) = 0 then Inl InvalidBatchId
        else
          let cts = requestBatchAnalysis_cts env st b;
              h = hashCiphertexts env cts
          in Inr (st\<lparr> decryptionContexts := (decryptionContexts st)
                       (requestId := \<lparr> batchId = b, stateHash = h, processed = False \<rparr>),
                     lastDecryptionRequestTime :=
                       (lastDecryptionRequestTime st)(sender := timestamp) \<rparr>,
                  [DecryptionRequested requestId b h]))))"

text \<open>The \<^verbatim>\<open>for\<close> loop of \<open>myCallback\<close>, over the \<^verbatim>\<open>currentTotal...\<close> variables.\<close>

function myCallback_loop ::
  "fhe \<Rightarrow> EncryptedImmuneData list \<Rightarrow> nat \<Rightarrow> nat \<Rightarrow> euint32 \<times> euint32 \<times> euint32
     \<Rightarrow> euint32 \<times> euint32 \<times> euint32" where
  "myCallback_loop env ds dataCount i (ca, cb, cc) =
     (if i < dataCount
      then let d = ds ! i
           in myCallback_loop env ds dataCount (i + 1)
                (fheAdd env ca (antigenAffinity d),
                 fheAdd env cb (antibodyCount d),
                 fheAdd env cc (tCellEffectiveness d))
      else (ca, cb, cc))"
  by pat_completeness auto
termination
  by (relation "measure (\<lambda>(env, ds, dataCount, i, t). dataCount - i)") auto

declare myCallback_loop.simps [simp del]

definition myCallback_cts :: "fhe \<Rightarrow> contract \<Rightarrow> uint256 \<Rightarrow> bytes32 list" where
  "myCallback_cts env st b =
     (let dataCount = length (batchEncryptedData st b) in
      case myCallback_loop env (batchEncryptedData st b) dataCount 0
             (asEuint32_0 env, asEuint32_0 env, asEuint32_0 env) of
        (currentTotalAntigenAffinity, currentTotalAntibodyCount,
         currentTotalTCellEffectiveness) \<Rightarrow>
          [toBytes32 env currentTotalAntigenAffinity,
           toBytes32 env currentTotalAntibodyCount,
           toBytes32 env currentTotalTCellEffectiveness])"

text \<open>
  The memory that the assembly block of \<open>myCallback\<close> reads, from the pointer
  \<^verbatim>\<open>cleartexts\<close> on. The arguments \<^verbatim>\<open>cleartexts\<close> and \<^verbatim>\<open>proof\<close> are decoded into
  memory one after the other, each as a length word followed by the data, padded with
  zeros to a multiple of 32 bytes; the next allocation is the copy \<^verbatim>\<open>ctx\<close> of the
  context, three words. A word is 32 bytes, big-endian. The three reads cover the 96
  bytes after the length word of \<^verbatim>\<open>cleartexts\<close>, which end inside \<^verbatim>\<open>ctx\<close> at the
  latest.
\<close>

definition word_of_bytes :: "bytes \<Rightarrow> uint256" where
  "word_of_bytes bs = foldl (\<lambda>acc b. acc * 256 + ucast b) 0 bs"

definition bytes_of_word :: "uint256 \<Rightarrow> bytes" where
  "bytes_of_word w = map (\<lambda>k. ucast (drop_bit (8 * (31 - k)) w)) [0..<32]"

definition pad32 :: "bytes \<Rightarrow> bytes" where
  "pad32 bs = bs @ replicate ((32 - length bs mod 32) mod 32) 0"

definition callback_memory :: "bytes \<Rightarrow> bytes \<Rightarrow> DecryptionContext \<Rightarrow> bytes" where
  "callback_memory cleartexts prf ctx =
     bytes_of_word (word_of_nat (length cleartexts)) @ pad32 cleartexts
     @ bytes_of_word (word_of_nat (length prf)) @ pad32 prf
     @ bytes_of_word (batchId ctx) @ bytes_of_word (stateHash ctx)
     @ bytes_of_word (if processed ctx then 1 else 0)"

text \<open>\<^verbatim>\<open>mload(add(cleartexts, off))\<close>, on the memory from the pointer \<^verbatim>\<open>cleartexts\<close> on.\<close>

definition mload :: "bytes \<Rightarrow> nat \<Rightarrow> uint256" where
  "mload mem off = word_of_bytes (take 32 (drop off mem))"

definition myCallback ::
  "fhe \<Rightarrow> contract \<Rightarrow> uint256 \<Rightarrow> bytes \<Rightarrow> bytes \<Rightarrow> error + contract \<times> event list" where
  "myCallback env st requestId cleartexts prf =
     (if processed (decryptionContexts st requestId) then Inl ReplayAttempt
      else
        let ctx = decryptionContexts st requestId;
            currentCts = myCallback_cts env st (batchId ctx);
            currentStateHash = hashCiphertexts env currentCts
        in if currentStateHash \<noteq> stateHash ctx then Inl StateMismatch
           else if \<not> checkSignatures env requestId cleartexts prf then Inl InvalidProof
           else
             let mem = callback_memory cleartexts prf ctx;
                 results = [mload mem 0x20, mload mem 0x40, mload mem 0x60]
             in Inr (st\<lparr> decryptionContexts := (decryptionContexts st)
                          (requestId := (decryptionContexts st requestId)
                             \<lparr> processed := True \<rparr>) \<rparr>,
                     [DecryptionCompleted requestId (batchId ctx) results]))"

subsection \<open>Transactions\<close>

text \<open>
  A transaction is one well-formed external call of a function of the contract,
  carrying no value, with its \<^verbatim>\<open>msg.sender\<close> and \<^verbatim>\<open>block.timestamp\<close>. A call
  that reverts leaves the storage as it was and emits nothing. Calls that never
  enter a function (value sent to these non-payable functions, malformed calldata, an
  unknown selector) revert with empty data in the dispatcher and are not transactions
  of the model.
\<close>

datatype call =
    TransferOwnership address
  | AddProvider address
  | RemoveProvider address
  | SetPaused bool
  | SetCooldownSeconds uint256
  | OpenBatch
  | CloseBatch uint256
  | SubmitEncryptedData euint32 euint32 euint32
  | RequestBatchAnalysis uint256 uint256  \<comment> \<open>batch id, request id issued by the oracle\<close>
  | MyCallback uint256 bytes bytes

record tx =
  sender :: address
  timestamp :: uint256
  called :: call

datatype outcome = Reverted error | Success "event list"

fun dispatch :: "fhe \<Rightarrow> contract \<Rightarrow> address \<Rightarrow> uint256 \<Rightarrow> call \<Rightarrow> error + contract \<times> event list" where
  "dispatch env st s t (TransferOwnership a) = transferOwnership st s a"
| "dispatch env st s t (AddProvider a) = addProvider st s a"
| "dispatch env st s t (RemoveProvider a) = removeProvider st s a"
| "dispatch env st s t (SetPaused p) = setPaused st s p"
| "dispatch env st s t (SetCooldownSeconds n) = setCooldownSeconds st s n"
| "dispatch env st s t OpenBatch = openBatch st s"
| "dispatch env st s t (CloseBatch b) = closeBatch st s b"
| "dispatch env st s t (SubmitEncryptedData x y z) = submitEncryptedData env st s t x y z"
| "dispatch env st s t (RequestBatchAnalysis b r) = requestBatchAnalysis env st s t b r"
| "dispatch env st s t (MyCallback r c p) = myCallback env st r c p"

definition execute :: "fhe \<Rightarrow> contract \<Rightarrow> tx \<Rightarrow> contract \<times> outcome" where
  "execute env st x =
     (case dispatch env st (sender x) (timestamp x) (called x) of
        Inl e \<Rightarrow> (st, Reverted e)
      | Inr (st', evs) \<Rightarrow> (st', Success evs))"

fun run :: "fhe \<Rightarrow> contract \<Rightarrow> tx list \<Rightarrow> contract" where
  "run env st [] = st"
| "run env st (x # xs) = run env (fst (execute env st x)) xs"

text \<open>The storage after deployment by \<open>d\<close> and the transactions \<open>xs\<close>.\<close>

definition deployed :: "fhe \<Rightarrow> address \<Rightarrow> tx list \<Rightarrow> contract" where
  "deployed env d xs = run env (fst (constructor d)) xs"

subsection \<open>Notions used by the properties\<close>

text \<open>
  The left-to-right homomorphic sum of one field over a list of records, starting
  from the encrypted zero.
\<close>

definition homomorphic_sum ::
  "fhe \<Rightarrow> (EncryptedImmuneData \<Rightarrow> euint32) \<Rightarrow> EncryptedImmuneData list \<Rightarrow> euint32" where
  "homomorphic_sum env field ds = foldl (fheAdd env) (asEuint32_0 env) (map field ds)"

text \<open>One turn of either aggregation loop, on the three running totals.\<close>

definition add_record ::
  "fhe \<Rightarrow> euint32 \<times> euint32 \<times> euint32 \<Rightarrow> EncryptedImmuneData \<Rightarrow> euint32 \<times> euint32 \<times> euint32" where
  "add_record env t d =
     (case t of (a, b, c) \<Rightarrow>
        (fheAdd env a (antigenAffinity d),
         fheAdd env b (antibodyCount d),
         fheAdd env c (tCellEffectiveness d)))"

fun is_submission :: "call \<Rightarrow> bool" where
  "is_submission (SubmitEncryptedData x y z) = True"
| "is_submission _ = False"

fun is_success :: "outcome \<Rightarrow> bool" where
  "is_success (Success evs) = True"
| "is_success (Reverted e) = False"

text \<open>
  The number of \<open>submitEncryptedData\<close> calls among \<open>xs\<close>, run from \<open>st\<close>, that were
  accepted while \<open>b\<close> was the current batch.
\<close>

fun accepted_submissions :: "fhe \<Rightarrow> contract \<Rightarrow> tx list \<Rightarrow> uint256 \<Rightarrow> nat" where
  "accepted_submissions env st [] b = 0"
| "accepted_submissions env st (x # xs) b =
     (if is_submission (called x) \<and> is_success (snd (execute env st x)) \<and> currentBatchId st = b
      then 1 else 0)
     + accepted_submissions env (fst (execute env st x)) xs b"

text \<open>
  The ledger invariant: the counter of every batch is the length of its record list,
  and no batch beyond the current one has records.
\<close>

definition ledger_inv :: "contract \<Rightarrow> bool" where
  "ledger_inv st \<longleftrightarrow>
     (\<forall>b. unat (totalEncryptedDataPoints (batches st b)) = length (batchEncryptedData st b)
          \<and> (currentBatchId st < b \<longrightarrow> batchEncryptedData st b = []))"

text \<open>
  The error conditions that the specification names, and the name under which each
  error of the contract falls: the specification has one condition
  \<^verbatim>\<open>Unauthorized\<close> for both \<^verbatim>\<open>NotOwner\<close> and \<^verbatim>\<open>NotProvider\<close>, and none for an
  arithmetic panic.
\<close>

definition named_conditions :: "string list" where
  "named_conditions =
     [''Unauthorized'', ''Paused'', ''CooldownActive'', ''InvalidBatchId'',
      ''BatchClosedOrInvalid'', ''NotInitialized'', ''ReplayAttempt'', ''StateMismatch'',
      ''InvalidProof'']"

fun condition_name :: "error \<Rightarrow> string" where
  "condition_name NotOwner = ''Unauthorized''"
| "condition_name NotProvider = ''Unauthorized''"
| "condition_name Paused = ''Paused''"
| "condition_name CooldownActive = ''CooldownActive''"
| "condition_name BatchClosedOrInvalid = ''BatchClosedOrInvalid''"
| "condition_name InvalidBatchId = ''InvalidBatchId''"
| "condition_name ReplayAttempt = ''ReplayAttempt''"
| "condition_name StateMismatch = ''StateMismatch''"
| "condition_name InvalidProof = ''InvalidProof''"
| "condition_name NotInitialized = ''NotInitialized''"
| "condition_name Panic_0x11 = ''Panic(0x11)''"

subsection \<open>A sample run\<close>

text \<open>
  An instance of the external capabilities on which the contract can be evaluated:
  handles are added as numbers, a handle is initialised when it is not zero, a proof
  verifies when it is the single byte 1, and the hash is a sum.
\<close>

definition sample_fhe :: fhe where
  "sample_fhe =
     \<lparr> asEuint32_0 = 1,
       fheAdd = (\<lambda>a b. a + b),
       toBytes32 = (\<lambda>x. x),
       isInitialized = (\<lambda>x. x \<noteq> 0),
       checkSignatures = (\<lambda>r c p. p = [1]),
       keccak256_abi_encode = (\<lambda>cts a. sum_list cts + ucast a),
       this = 0xC0 \<rparr>"

text \<open>
  The owner \<open>0xA1\<close> adds the provider \<open>0xB2\<close> and opens batch 1, the provider submits
  a record; then the owner closes the batch and requests its analysis, the oracle
  issues request 9 and later calls back with the cleartexts 5, 6 and 7, each a word
  of 32 bytes.
\<close>

definition sample_cleartexts :: bytes where
  "sample_cleartexts = replicate 31 0 @ [5] @ replicate 31 0 @ [6] @ replicate 31 0 @ [7]"

definition sample_open :: "tx list" where
  "sample_open =
     [\<lparr> sender = 0xA1, timestamp = 10, called = AddProvider 0xB2 \<rparr>,
      \<lparr> sender = 0xA1, timestamp = 11, called = OpenBatch \<rparr>,
      \<lparr> sender = 0xB2, timestamp = 100, called = SubmitEncryptedData 5 6 7 \<rparr>]"

definition sample_closed :: "tx list" where
  "sample_closed =
     sample_open @ [\<lparr> sender = 0xA1, timestamp = 120, called = CloseBatch 1 \<rparr>]"

definition sample_requested :: "tx list" where
  "sample_requested =
     sample_closed @
     [\<lparr> sender = 0xA1, timestamp = 130, called = RequestBatchAnalysis 1 9 \<rparr>]"

definition sample_completed :: "tx list" where
  "sample_completed =
     sample_requested @
     [\<lparr> sender = 0xE5, timestamp = 140, called = MyCallback 9 sample_cleartexts [1] \<rparr>]"

text \<open>The provider submits again after batch 1 is closed.\<close>

definition sample_late :: "tx list" where
  "sample_late =
     sample_closed @
     [\<lparr> sender = 0xB2, timestamp = 125, called = SubmitEncryptedData 8 9 10 \<rparr>]"

text \<open>The owner adds the provider and opens no batch.\<close>

definition sample_unopened :: "tx list" where
  "sample_unopened = [\<lparr> sender = 0xA1, timestamp = 10, called = AddProvider 0xB2 \<rparr>]"

text \<open>The owner pauses the contract while request 9 is pending.\<close>

definition sample_paused :: "tx list" where
  "sample_paused =
     sample_requested @
     [\<lparr> sender = 0xA1, timestamp = 135, called = SetPaused True \<rparr>]"

text \<open>The owner sets a cooldown of 60 seconds before the provider submits.\<close>

definition sample_cooldown :: "tx list" where
  "sample_cooldown =
     [\<lparr> sender = 0xA1, timestamp = 10, called = AddProvider 0xB2 \<rparr>,
      \<lparr> sender = 0xA1, timestamp = 11, called = SetCooldownSeconds 60 \<rparr>,
      \<lparr> sender = 0xA1, timestamp = 12, called = OpenBatch \<rparr>]"

text \<open>After the first submission the owner sets the cooldown to \<open>2^256 - 1\<close> seconds.\<close>

definition sample_long_cooldown :: "tx list" where
  "sample_long_cooldown =
     sample_open @
     [\<lparr> sender = 0xA1, timestamp = 150, called = SetCooldownSeconds
          0xFFFFFFFFFFFFFFFFFFFFFFFFFFFFFFFFFFFFFFFFFFFFFFFFFFFFFFFFFFFFFFFF \<rparr>]"

section \<open>Properties\<close>

subsection \<open>Unfolding and evaluation\<close>

lemmas call_defs =
  transferOwnership_def addProvider_def removeProvider_def setPaused_def
  setCooldownSeconds_def openBatch_def closeBatch_def submitEncryptedData_def
  requestBatchAnalysis_def myCallback_def
  require_ok_def onlyOwner_def onlyProvider_def whenNotPaused_def
  checkSubmissionCooldown_def checkDecryptionCooldown_def initIfNeeded_def
  checked_add_def hashCiphertexts_def Let_def

subsection \<open>The aggregation loops are left folds\<close>

lemma request_loop_drop:
  "i \<le> length ds \<Longrightarrow>
   requestBatchAnalysis_loop env ds (length ds) i t = foldl (add_record env) t (drop i ds)"
proof (induction "length ds - i" arbitrary: i t)
  case 0
  then have "\<not> i < length ds" by simp
  then show ?case using 0 by (cases t) (simp add: requestBatchAnalysis_loop.simps)
next
  case (Suc n)
  then have lt: "i < length ds" by simp
  obtain a b c where t: "t = (a, b, c)" by (cases t)
  have d: "drop i ds = ds ! i # drop (Suc i) ds"
    using lt by (simp add: Cons_nth_drop_Suc)
  have "n = length ds - Suc i" using Suc.hyps(2) by simp
  then have ih: "\<And>t'. requestBatchAnalysis_loop env ds (length ds) (Suc i) t'
                     = foldl (add_record env) t' (drop (Suc i) ds)"
    using Suc.hyps(1)[of "Suc i"] lt by simp
  have "requestBatchAnalysis_loop env ds (length ds) i (a, b, c) =
        requestBatchAnalysis_loop env ds (length ds) (Suc i) (add_record env (a, b, c) (ds ! i))"
    using lt by (subst requestBatchAnalysis_loop.simps) (simp add: add_record_def Let_def)
  then show ?case
    unfolding t d by (simp only: ih foldl_Cons)
qed

lemma callback_loop_drop:
  "i \<le> length ds \<Longrightarrow>
   myCallback_loop env ds (length ds) i t = foldl (add_record env) t (drop i ds)"
proof (induction "length ds - i" arbitrary: i t)
  case 0
  then have "\<not> i < length ds" by simp
  then show ?case using 0 by (cases t) (simp add: myCallback_loop.simps)
next
  case (Suc n)
  then have lt: "i < length ds" by simp
  obtain a b c where t: "t = (a, b, c)" by (cases t)
  have d: "drop i ds = ds ! i # drop (Suc i) ds"
    using lt by (simp add: Cons_nth_drop_Suc)
  have "n = length ds - Suc i" using Suc.hyps(2) by simp
  then have ih: "\<And>t'. myCallback_loop env ds (length ds) (Suc i) t'
                     = foldl (add_record env) t' (drop (Suc i) ds)"
    using Suc.hyps(1)[of "Suc i"] lt by simp
  have "myCallback_loop env ds (length ds) i (a, b, c) =
        myCallback_loop env ds (length ds) (Suc i) (add_record env (a, b, c) (ds ! i))"
    using lt by (subst myCallback_loop.simps) (simp add: add_record_def Let_def)
  then show ?case
    unfolding t d by (simp only: ih foldl_Cons)
qed

lemma foldl_add_record:
  "foldl (add_record env) (a, b, c) ds =
     (foldl (fheAdd env) a (map antigenAffinity ds),
      foldl (fheAdd env) b (map antibodyCount ds),
      foldl (fheAdd env) c (map tCellEffectiveness ds))"
  by (induction ds arbitrary: a b c) (simp_all add: add_record_def)

lemma requestBatchAnalysis_cts_sums:
  "requestBatchAnalysis_cts env st b =
     [toBytes32 env (homomorphic_sum env antigenAffinity (batchEncryptedData st b)),
      toBytes32 env (homomorphic_sum env antibodyCount (batchEncryptedData st b)),
      toBytes32 env (homomorphic_sum env tCellEffectiveness (batchEncryptedData st b))]"
  by (simp add: requestBatchAnalysis_cts_def request_loop_drop foldl_add_record
      homomorphic_sum_def)

lemma myCallback_cts_sums:
  "myCallback_cts env st b =
     [toBytes32 env (homomorphic_sum env antigenAffinity (batchEncryptedData st b)),
      toBytes32 env (homomorphic_sum env antibodyCount (batchEncryptedData st b)),
      toBytes32 env (homomorphic_sum env tCellEffectiveness (batchEncryptedData st b))]"
  by (simp add: myCallback_cts_def callback_loop_drop foldl_add_record
      homomorphic_sum_def)

lemmas sample_defs =
  sample_fhe_def sample_open_def sample_closed_def sample_requested_def sample_completed_def
  sample_paused_def sample_cooldown_def sample_late_def sample_unopened_def sample_long_cooldown_def deployed_def constructor_def execute_def
  requestBatchAnalysis_cts_sums myCallback_cts_sums homomorphic_sum_def

subsection \<open>Invariants of the storage\<close>

lemma checked_add_Some:
  "checked_add a b = Some c \<Longrightarrow> unat c = unat a + unat b"
  using unat_add_lem [of a b] by (auto simp: checked_add_def split: if_splits)

lemma checked_add_eq: "checked_add a b = Some c \<Longrightarrow> c = a + b"
  by (auto simp: checked_add_def split: if_splits)

lemma checked_add_1_neq_0: "checked_add a 1 = Some c \<Longrightarrow> c \<noteq> 0"
  using checked_add_Some [of a 1 c] by (auto simp: unat_eq_zero [symmetric] simp del: unat_eq_zero)

lemma checked_add_1_less: "checked_add a 1 = Some c \<Longrightarrow> a < c"
  using checked_add_Some [of a 1 c] by (simp add: word_less_nat_alt)

lemma run_append: "run env st (xs @ ys) = run env (run env st xs) ys"
  by (induction xs arbitrary: st) simp_all

lemma deployed_snoc:
  "deployed env d (xs @ [x]) = fst (execute env (deployed env d xs) x)"
  by (simp add: deployed_def run_append)

lemma ledger_inv_constructor: "ledger_inv (fst (constructor d))"
  by (simp add: ledger_inv_def constructor_def)

lemma ledger_inv_openBatch:
  assumes "ledger_inv st" "openBatch st s = Inr (st', evs)"
  shows "ledger_inv st'"
proof -
  from assms(2) obtain n where n: "checked_add (currentBatchId st) 1 = Some n"
    and st': "st' = st\<lparr> currentBatchId := n,
                 batches := (batches st)
                   (n := \<lparr> id_batch = n, totalEncryptedDataPoints = 0, closed = False \<rparr>) \<rparr>"
    by (auto simp: openBatch_def require_ok_def split: option.splits)
  have lt: "currentBatchId st < n" using n by (rule checked_add_1_less)
  with assms(1) have "batchEncryptedData st n = []" by (simp add: ledger_inv_def)
  moreover have "\<And>b. n < b \<Longrightarrow> currentBatchId st < b" using lt by simp
  ultimately show ?thesis using assms(1) by (auto simp: ledger_inv_def st')
qed

lemma ledger_inv_closeBatch:
  assumes "ledger_inv st" "closeBatch st s b = Inr (st', evs)"
  shows "ledger_inv st'"
  using assms by (auto simp: closeBatch_def require_ok_def ledger_inv_def split: option.splits if_splits)

lemma ledger_inv_submit:
  assumes "ledger_inv st" "submitEncryptedData env st s t x y z = Inr (st', evs)"
  shows "ledger_inv st'"
proof -
  from assms(2) obtain n where
    n: "checked_add (totalEncryptedDataPoints (batches st (currentBatchId st))) 1 = Some n"
    and st': "st' = st\<lparr> batchEncryptedData := (batchEncryptedData st)
                         (currentBatchId st := batchEncryptedData st (currentBatchId st) @
                            [\<lparr> antigenAffinity = x, antibodyCount = y,
                               tCellEffectiveness = z \<rparr>]),
                       batches := (batches st)
                         (currentBatchId st := (batches st (currentBatchId st))
                            \<lparr> totalEncryptedDataPoints := n \<rparr>),
                       lastSubmissionTime := (lastSubmissionTime st)(s := t) \<rparr>"
    by (auto simp: submitEncryptedData_def require_ok_def Let_def split: option.splits if_splits)
  have "unat n = unat (totalEncryptedDataPoints (batches st (currentBatchId st))) + 1"
    using checked_add_Some [OF n] by simp
  then show ?thesis using assms(1) by (auto simp: ledger_inv_def st')
qed

lemma ledger_inv_dispatch:
  assumes "ledger_inv st" "dispatch env st s t c = Inr (st', evs)"
  shows "ledger_inv st'"
proof (cases c)
  case OpenBatch
  then show ?thesis using assms ledger_inv_openBatch by simp
next
  case (CloseBatch b)
  then show ?thesis using assms ledger_inv_closeBatch by simp
next
  case (SubmitEncryptedData x y z)
  then show ?thesis using assms ledger_inv_submit by simp
next
  case (TransferOwnership a)
  then show ?thesis using assms
    by (auto simp: transferOwnership_def require_ok_def ledger_inv_def Let_def split: option.splits)
next
  case (AddProvider a)
  then show ?thesis using assms
    by (auto simp: addProvider_def require_ok_def ledger_inv_def split: option.splits if_splits)
next
  case (RemoveProvider a)
  then show ?thesis using assms
    by (auto simp: removeProvider_def require_ok_def ledger_inv_def split: option.splits if_splits)
next
  case (SetPaused q)
  then show ?thesis using assms
    by (auto simp: setPaused_def require_ok_def ledger_inv_def split: option.splits if_splits)
next
  case (SetCooldownSeconds n)
  then show ?thesis using assms
    by (auto simp: setCooldownSeconds_def require_ok_def ledger_inv_def Let_def split: option.splits)
next
  case (RequestBatchAnalysis b r)
  then show ?thesis using assms
    by (auto simp: requestBatchAnalysis_def require_ok_def ledger_inv_def Let_def
        split: option.splits if_splits)
next
  case (MyCallback r c p)
  then show ?thesis using assms
    by (auto simp: myCallback_def ledger_inv_def Let_def split: if_splits)
qed

lemma ledger_inv_execute: "ledger_inv st \<Longrightarrow> ledger_inv (fst (execute env st x))"
  using ledger_inv_dispatch [of st env "sender x" "timestamp x" "called x"]
  by (auto simp: execute_def split: sum.splits)

lemma ledger_inv_run: "ledger_inv st \<Longrightarrow> ledger_inv (run env st xs)"
  by (induction xs arbitrary: st) (simp_all add: ledger_inv_execute)

lemma ledger_inv_deployed: "ledger_inv (deployed env d xs)"
  by (simp add: deployed_def ledger_inv_run ledger_inv_constructor)


lemma count_dispatch:
  assumes inv: "ledger_inv st" and d: "dispatch env st s t c = Inr (st', evs)"
  shows "unat (totalEncryptedDataPoints (batches st' b))
         = unat (totalEncryptedDataPoints (batches st b))
           + (if is_submission c \<and> currentBatchId st = b then 1 else 0)"
proof (cases c)
  case OpenBatch
  from d OpenBatch obtain n where n: "checked_add (currentBatchId st) 1 = Some n"
    and st': "st' = st\<lparr> currentBatchId := n,
                 batches := (batches st)
                   (n := \<lparr> id_batch = n, totalEncryptedDataPoints = 0, closed = False \<rparr>) \<rparr>"
    by (auto simp: openBatch_def require_ok_def split: option.splits)
  have "currentBatchId st < n" using n by (rule checked_add_1_less)
  with inv have "unat (totalEncryptedDataPoints (batches st n)) = 0"
    by (simp add: ledger_inv_def)
  then show ?thesis using OpenBatch by (simp add: st')
next
  case (CloseBatch k)
  then show ?thesis using d
    by (auto simp: closeBatch_def require_ok_def split: option.splits if_splits)
next
  case (SubmitEncryptedData x y z)
  from d SubmitEncryptedData obtain n where
    n: "checked_add (totalEncryptedDataPoints (batches st (currentBatchId st))) 1 = Some n"
    and b': "batches st' = (batches st)
                         (currentBatchId st := (batches st (currentBatchId st))
                            \<lparr> totalEncryptedDataPoints := n \<rparr>)"
    by (auto simp: submitEncryptedData_def require_ok_def Let_def split: option.splits if_splits)
  have "unat n = unat (totalEncryptedDataPoints (batches st (currentBatchId st))) + 1"
    using checked_add_Some [OF n] by simp
  then show ?thesis using SubmitEncryptedData by (auto simp: b')
next
  case (TransferOwnership a)
  then show ?thesis using d
    by (auto simp: transferOwnership_def require_ok_def Let_def split: option.splits)
next
  case (AddProvider a)
  then show ?thesis using d
    by (auto simp: addProvider_def require_ok_def split: option.splits if_splits)
next
  case (RemoveProvider a)
  then show ?thesis using d
    by (auto simp: removeProvider_def require_ok_def split: option.splits if_splits)
next
  case (SetPaused q)
  then show ?thesis using d
    by (auto simp: setPaused_def require_ok_def split: option.splits if_splits)
next
  case (SetCooldownSeconds n)
  then show ?thesis using d
    by (auto simp: setCooldownSeconds_def require_ok_def Let_def split: option.splits)
next
  case (RequestBatchAnalysis k r)
  then show ?thesis using d
    by (auto simp: requestBatchAnalysis_def require_ok_def Let_def
        split: option.splits if_splits)
next
  case (MyCallback r c p)
  then show ?thesis using d
    by (auto simp: myCallback_def Let_def split: if_splits)
qed

lemma count_execute:
  assumes "ledger_inv st"
  shows "unat (totalEncryptedDataPoints (batches (fst (execute env st x)) b))
         = unat (totalEncryptedDataPoints (batches st b))
           + (if is_submission (called x) \<and> is_success (snd (execute env st x))
                 \<and> currentBatchId st = b then 1 else 0)"
proof (cases "dispatch env st (sender x) (timestamp x) (called x)")
  case (Inl e)
  then show ?thesis by (simp add: execute_def)
next
  case (Inr r)
  obtain st' evs where r: "r = (st', evs)" by (cases r)
  show ?thesis
    using count_dispatch [OF assms Inr [unfolded r], of b] Inr r by (simp add: execute_def)
qed

lemma count_run:
  "ledger_inv st \<Longrightarrow>
   unat (totalEncryptedDataPoints (batches (run env st xs) b))
     = unat (totalEncryptedDataPoints (batches st b)) + accepted_submissions env st xs b"
proof (induction xs arbitrary: st)
  case Nil
  then show ?case by simp
next
  case (Cons x xs)
  have "ledger_inv (fst (execute env st x))" using Cons.prems by (rule ledger_inv_execute)
  from Cons.IH [OF this] count_execute [OF Cons.prems, of env x b]
  show ?case by simp
qed

lemma batch0_open_dispatch:
  assumes "\<not> closed (batches st 0)" "dispatch env st s t c = Inr (st', evs)"
  shows "\<not> closed (batches st' 0)"
proof (cases c)
  case OpenBatch
  from assms(2) OpenBatch obtain n where n: "checked_add (currentBatchId st) 1 = Some n"
    and st': "batches st' = (batches st)
                   (n := \<lparr> id_batch = n, totalEncryptedDataPoints = 0, closed = False \<rparr>)"
    by (auto simp: openBatch_def require_ok_def split: option.splits)
  show ?thesis using assms(1) by (simp add: st')
next
  case (CloseBatch k)
  then show ?thesis using assms
    by (auto simp: closeBatch_def require_ok_def split: option.splits if_splits)
next
  case (SubmitEncryptedData x y z)
  then show ?thesis using assms
    by (auto simp: submitEncryptedData_def require_ok_def Let_def split: option.splits if_splits)
next
  case (TransferOwnership a)
  then show ?thesis using assms
    by (auto simp: transferOwnership_def require_ok_def Let_def split: option.splits)
next
  case (AddProvider a)
  then show ?thesis using assms
    by (auto simp: addProvider_def require_ok_def split: option.splits if_splits)
next
  case (RemoveProvider a)
  then show ?thesis using assms
    by (auto simp: removeProvider_def require_ok_def split: option.splits if_splits)
next
  case (SetPaused q)
  then show ?thesis using assms
    by (auto simp: setPaused_def require_ok_def split: option.splits if_splits)
next
  case (SetCooldownSeconds n)
  then show ?thesis using assms
    by (auto simp: setCooldownSeconds_def require_ok_def Let_def split: option.splits)
next
  case (RequestBatchAnalysis k r)
  then show ?thesis using assms
    by (auto simp: requestBatchAnalysis_def require_ok_def Let_def
        split: option.splits if_splits)
next
  case (MyCallback r c p)
  then show ?thesis using assms
    by (auto simp: myCallback_def Let_def split: if_splits)
qed

lemma batch0_open_run: "\<not> closed (batches st 0) \<Longrightarrow> \<not> closed (batches (run env st xs) 0)"
proof (induction xs arbitrary: st)
  case Nil
  then show ?case by simp
next
  case (Cons x xs)
  have "\<not> closed (batches (fst (execute env st x)) 0)"
    using batch0_open_dispatch [of st env "sender x" "timestamp x" "called x"] Cons.prems
    by (auto simp: execute_def split: sum.splits)
  then show ?case using Cons.IH by simp
qed

lemma batch0_open_deployed: "\<not> closed (batches (deployed env d xs) 0)"
  by (simp add: deployed_def batch0_open_run constructor_def)

subsection \<open>Decoding the cleartexts\<close>

lemma length_bytes_of_word: "length (bytes_of_word w) = 32"
  by (simp add: bytes_of_word_def)

lemma mload_in_cleartexts:
  assumes "n + 32 \<le> length c"
  shows "mload (callback_memory c p ctx) (32 + n) = word_of_bytes (take 32 (drop n c))"
proof -
  define r where "r = replicate ((32 - length c mod 32) mod 32) 0
             @ bytes_of_word (word_of_nat (length p)) @ pad32 p
             @ bytes_of_word (batchId ctx) @ bytes_of_word (stateHash ctx)
             @ bytes_of_word (if processed ctx then 1 else 0)"
  have m: "callback_memory c p ctx = bytes_of_word (word_of_nat (length c)) @ (c @ r)"
    by (simp add: callback_memory_def pad32_def r_def)
  have "drop (32 + n) (callback_memory c p ctx) = drop n (c @ r)"
    unfolding m by (simp add: length_bytes_of_word)
  moreover have "take 32 (drop n (c @ r)) = take 32 (drop n c)"
    using assms by simp
  ultimately show ?thesis by (simp only: mload_def)
qed

lemma foldl_word_of_nat:
  "foldl (\<lambda>acc b. acc * 256 + ucast b) (word_of_nat n :: uint256) (bs :: bytes)
     = word_of_nat (foldl (\<lambda>a b. a * 256 + unat b) n bs)"
proof (induction bs arbitrary: n)
  case Nil
  then show ?case by simp
next
  case (Cons b bs)
  have "(word_of_nat n :: uint256) * 256 + ucast b = word_of_nat (n * 256 + unat b)"
    by simp
  then show ?case using Cons.IH [of "n * 256 + unat b"] by simp
qed

lemma be_nat_snoc:
  "foldl (\<lambda>a b. a * 256 + unat b) n (bs @ [b :: 8 word]) 
     = foldl (\<lambda>a b. a * 256 + unat b) n bs * 256 + unat b"
  by simp

lemma be_nat_sum:
  "foldl (\<lambda>a b. a * 256 + unat b) 0 (bs :: bytes)
     = (\<Sum>k<length bs. unat (bs ! k) * 256 ^ (length bs - 1 - k))"
proof (induction bs rule: rev_induct)
  case Nil
  then show ?case by simp
next
  case (snoc b bs)
  have "(\<Sum>k<length bs. unat ((bs @ [b]) ! k) * 256 ^ (length bs - k))
          = (\<Sum>k<length bs. (unat (bs ! k) * 256 ^ (length bs - 1 - k)) * 256)"
  proof (rule sum.cong)
    fix k assume "k \<in> {..<length bs}"
    then have k: "k < length bs" by simp
    then have "length bs - k = Suc (length bs - 1 - k)" by simp
    then show "unat ((bs @ [b]) ! k) * 256 ^ (length bs - k)
                 = (unat (bs ! k) * 256 ^ (length bs - 1 - k)) * 256"
      using k by (simp add: nth_append)
  qed simp
  then have "(\<Sum>k<length bs. unat ((bs @ [b]) ! k) * 256 ^ (length bs - k))
          = foldl (\<lambda>a b. a * 256 + unat b) 0 bs * 256"
    using snoc.IH by (simp add: sum_distrib_right)
  then show ?case by simp
qed

lemma be_nat_bound:
  "foldl (\<lambda>a b. a * 256 + unat b) 0 (bs :: bytes) < 256 ^ length bs"
proof (induction bs rule: rev_induct)
  case Nil
  then show ?case by simp
next
  case (snoc b bs)
  have "unat b < 256" using unsigned_less [of b] by simp
  with snoc.IH show ?case by simp
qed

lemma unat_word_of_bytes:
  assumes "length bs = 32"
  shows "unat (word_of_bytes bs) = (\<Sum>k<32. unat (bs ! k) * 256 ^ (31 - k))"
proof -
  have "word_of_bytes bs = word_of_nat (foldl (\<lambda>a b. a * 256 + unat b) 0 bs)"
    using foldl_word_of_nat [of 0 bs] by (simp add: word_of_bytes_def)
  moreover have "foldl (\<lambda>a b. a * 256 + unat b) 0 bs < 2 ^ 256"
    using be_nat_bound [of bs] assms by simp
  ultimately have "unat (word_of_bytes bs) = foldl (\<lambda>a b. a * 256 + unat b) 0 bs"
    by (simp add: unat_of_nat)
  then show ?thesis using be_nat_sum [of bs] assms by simp
qed

lemma decode_word:
  assumes "n + 32 \<le> length c"
  shows "unat (mload (callback_memory c p ctx) (32 + n))
           = (\<Sum>k<32. unat (c ! (n + k)) * 256 ^ (31 - k))"
proof -
  have l: "length (take 32 (drop n c)) = 32" using assms by simp
  have "(\<Sum>k<32. unat (take 32 (drop n c) ! k) * 256 ^ (31 - k))
          = (\<Sum>k<32. unat (c ! (n + k)) * 256 ^ (31 - k))"
    using assms by (intro sum.cong) simp_all
  then show ?thesis
    using unat_word_of_bytes [OF l] by (simp add: mload_in_cleartexts [OF assms])
qed

lemma replicate_31: "replicate 31 (0::8 word) = [0,0,0,0,0,0,0,0,0,0,0,0,0,0,0,0,0,0,0,0,0,0,0,0,0,0,0,0,0,0,0]"
  by (simp add: numeral_eq_Suc)

lemma sample_results:
  "mload (callback_memory sample_cleartexts p ctx) 32 = 5"
  "mload (callback_memory sample_cleartexts p ctx) 64 = 6"
  "mload (callback_memory sample_cleartexts p ctx) 96 = 7"
proof -
  have l: "length sample_cleartexts = 96" by (simp add: sample_cleartexts_def)
  show "mload (callback_memory sample_cleartexts p ctx) 32 = 5"
    using mload_in_cleartexts [of 0 sample_cleartexts p ctx] l
    by (simp add: sample_cleartexts_def replicate_31 word_of_bytes_def)
  show "mload (callback_memory sample_cleartexts p ctx) 64 = 6"
    using mload_in_cleartexts [of 32 sample_cleartexts p ctx] l
    by (simp add: sample_cleartexts_def replicate_31 word_of_bytes_def)
  show "mload (callback_memory sample_cleartexts p ctx) 96 = 7"
    using mload_in_cleartexts [of 64 sample_cleartexts p ctx] l
    by (simp add: sample_cleartexts_def replicate_31 word_of_bytes_def)
qed

lemma upt32: "[0..<32] = [0,1,2,3,4,5,6,7,8,9,10,11,12,13,14,15,16,17,18,19,20,21,22,23,24,25,26,27,28,29,30,31]"
  by (simp add: upt_rec)

lemma bytes_of_word_one: "bytes_of_word 1 = [0,0,0,0,0,0,0,0,0,0,0,0,0,0,0,0,0,0,0,0,0,0,0,0,0,0,0,0,0,0,0,1]"
  unfolding bytes_of_word_def upt32 by (simp add: drop_bit_Suc numeral_eq_Suc [of "Num.Bit0 _"] numeral_eq_Suc [of "Num.Bit1 _"])


lemma pad32_one: "pad32 [1] = [1,0,0,0,0,0,0,0,0,0,0,0,0,0,0,0,0,0,0,0,0,0,0,0,0,0,0,0,0,0,0,0]"
  by (simp add: pad32_def replicate_31)

lemma drop_bytes_of_word: "drop 32 (bytes_of_word w @ xs) = xs"
  by (simp add: length_bytes_of_word)

lemma take_bytes_of_word: "take 32 (bytes_of_word w @ xs) = bytes_of_word w"
  by (simp add: length_bytes_of_word)

lemma short_memory: "callback_memory [] [1] \<lparr> batchId = 1, stateHash = 213, processed = False \<rparr>
             = bytes_of_word 0 @ bytes_of_word 1 @ pad32 [1] @ bytes_of_word 1
               @ (bytes_of_word 213 @ bytes_of_word 0)"
  by (simp add: callback_memory_def pad32_def)

lemma word_of_bytes_one: "word_of_bytes (bytes_of_word 1) = 1"
  by (simp add: bytes_of_word_one word_of_bytes_def)

lemma word_of_bytes_pad_one: "word_of_bytes (pad32 [1]) = 2 ^ 248"
  by (simp add: pad32_one word_of_bytes_def)


lemma take_pad: "take 32 (pad32 [1] @ xs) = pad32 [1]"
  by (simp add: pad32_one)

lemma drop_pad: "drop 32 (pad32 [1] @ xs) = xs"
  by (simp add: pad32_one)

lemma short_results:
  "mload (callback_memory [] [1] \<lparr> batchId = 1, stateHash = 213, processed = False \<rparr>) 32 = 1"
  "mload (callback_memory [] [1] \<lparr> batchId = 1, stateHash = 213, processed = False \<rparr>) 64
     = 2 ^ 248"
  "mload (callback_memory [] [1] \<lparr> batchId = 1, stateHash = 213, processed = False \<rparr>) 96 = 1"
proof -
  have d64: "drop 64 xs = drop 32 (drop 32 xs)" for xs :: bytes by simp
  have d96: "drop 96 xs = drop 32 (drop 32 (drop 32 xs))" for xs :: bytes by simp
  show "mload (callback_memory [] [1] \<lparr> batchId = 1, stateHash = 213, processed = False \<rparr>) 32 = 1"
    unfolding short_memory mload_def by (simp only: drop_bytes_of_word take_bytes_of_word word_of_bytes_one)
  show "mload (callback_memory [] [1] \<lparr> batchId = 1, stateHash = 213, processed = False \<rparr>) 64
     = 2 ^ 248"
    unfolding short_memory mload_def d64 by (simp only: drop_bytes_of_word take_pad word_of_bytes_pad_one)
  show "mload (callback_memory [] [1] \<lparr> batchId = 1, stateHash = 213, processed = False \<rparr>) 96 = 1"
    unfolding short_memory mload_def d96
    by (simp only: drop_bytes_of_word drop_pad take_bytes_of_word word_of_bytes_one)
qed

subsection \<open>The decryption callback\<close>

text \<open>
  C1: once the context of a request id has \<open>processed = True\<close>, every call of
  \<open>myCallback\<close> with that request id reverts with \<open>ReplayAttempt\<close>, whatever the
  cleartexts, the proof, the caller and the time are, and the transaction leaves the
  whole storage, the stored context included, as it was.
\<close>

theorem replayed_callback_rejected:
  "processed (decryptionContexts st requestId) \<Longrightarrow>
     myCallback env st requestId cleartexts prf = Inl ReplayAttempt
     \<and> execute env st \<lparr> sender = s, timestamp = t,
                         called = MyCallback requestId cleartexts prf \<rparr>
         = (st, Reverted ReplayAttempt)"
  by (simp add: myCallback_def execute_def)

theorem replayed_callback_rejected_witness:
  "processed (decryptionContexts (deployed sample_fhe 0xA1 sample_completed) 9)
   \<and> myCallback sample_fhe (deployed sample_fhe 0xA1 sample_completed) 9 [] [1]
       = Inl ReplayAttempt
   \<and> execute sample_fhe (deployed sample_fhe 0xA1 sample_completed)
        \<lparr> sender = 0xE5, timestamp = 150, called = MyCallback 9 [] [1] \<rparr>
       = (deployed sample_fhe 0xA1 sample_completed, Reverted ReplayAttempt)"
proof -
  have h: "processed (decryptionContexts (deployed sample_fhe 0xA1 sample_completed) 9)"
    by (simp add: sample_defs call_defs)
  show ?thesis
    using h replayed_callback_rejected [OF h, of sample_fhe "[]" "[1]" "0xE5" 150] by simp
qed

text \<open>
  C2: \<open>myCallback\<close> checks in a fixed order. A processed context gives
  \<open>ReplayAttempt\<close>, whatever the hash and the proof are; otherwise a hash of the
  three freshly summed ciphertexts that differs from the stored one gives
  \<open>StateMismatch\<close>, whatever the proof is; otherwise a proof that \<open>checkSignatures\<close>
  rejects gives \<open>InvalidProof\<close>. Only when all three checks pass are three results
  read, \<open>processed\<close> set (the only change of the storage) and the single event
  \<open>DecryptionCompleted\<close> emitted with exactly these three results. For cleartexts
  of at least 96 bytes the three results are the big-endian values of bytes 0 to 31,
  32 to 63 and 64 to 95 of the cleartexts. A callback that fails leaves the storage
  as it was; after a mismatch or a bad proof the context is still pending.
\<close>

theorem callback_check_order:
  "(let ctx = decryptionContexts st r;
        ds = batchEncryptedData st (batchId ctx);
        h = hashCiphertexts env
              [toBytes32 env (homomorphic_sum env antigenAffinity ds),
               toBytes32 env (homomorphic_sum env antibodyCount ds),
               toBytes32 env (homomorphic_sum env tCellEffectiveness ds)];
        res = myCallback env st r c p;
        after = fst (execute env st \<lparr> sender = s, timestamp = t, called = MyCallback r c p \<rparr>);
        mem = callback_memory c p ctx
    in (processed ctx \<longrightarrow> res = Inl ReplayAttempt)
     \<and> (\<not> processed ctx \<and> h \<noteq> stateHash ctx \<longrightarrow> res = Inl StateMismatch)
     \<and> (\<not> processed ctx \<and> h = stateHash ctx \<and> \<not> checkSignatures env r c p
          \<longrightarrow> res = Inl InvalidProof)
     \<and> (\<not> processed ctx \<and> h = stateHash ctx \<and> checkSignatures env r c p
          \<longrightarrow> res = Inr (st\<lparr> decryptionContexts :=
                              (decryptionContexts st)(r := ctx\<lparr> processed := True \<rparr>) \<rparr>,
                          [DecryptionCompleted r (batchId ctx)
                             [mload mem 32, mload mem 64, mload mem 96]]))
     \<and> (96 \<le> length c \<longrightarrow>
          unat (mload mem 32) = (\<Sum>k<32. unat (c ! k) * 256 ^ (31 - k))
          \<and> unat (mload mem 64) = (\<Sum>k<32. unat (c ! (32 + k)) * 256 ^ (31 - k))
          \<and> unat (mload mem 96) = (\<Sum>k<32. unat (c ! (64 + k)) * 256 ^ (31 - k)))
     \<and> (\<forall>e. res = Inl e \<longrightarrow> after = st)
     \<and> (\<forall>e. res = Inl e \<and> e \<noteq> ReplayAttempt \<longrightarrow> \<not> processed (decryptionContexts after r)))"
proof -
  have d: "96 \<le> length c \<longrightarrow>
          unat (mload (callback_memory c p (decryptionContexts st r)) 32)
            = (\<Sum>k<32. unat (c ! k) * 256 ^ (31 - k))
          \<and> unat (mload (callback_memory c p (decryptionContexts st r)) 64)
            = (\<Sum>k<32. unat (c ! (32 + k)) * 256 ^ (31 - k))
          \<and> unat (mload (callback_memory c p (decryptionContexts st r)) 96)
            = (\<Sum>k<32. unat (c ! (64 + k)) * 256 ^ (31 - k))"
    using decode_word [of 0 c p "decryptionContexts st r"]
      decode_word [of 32 c p "decryptionContexts st r"]
      decode_word [of 64 c p "decryptionContexts st r"]
    by simp
  show ?thesis
    using d by (simp add: myCallback_def execute_def myCallback_cts_sums Let_def)
qed

theorem callback_check_order_witness:
  "myCallback sample_fhe (deployed sample_fhe 0xA1 sample_requested) 9 sample_cleartexts [2]
     = Inl InvalidProof
   \<and> fst (execute sample_fhe (deployed sample_fhe 0xA1 sample_requested)
            \<lparr> sender = 0xE5, timestamp = 140, called = MyCallback 9 sample_cleartexts [2] \<rparr>)
       = deployed sample_fhe 0xA1 sample_requested
   \<and> myCallback sample_fhe (deployed sample_fhe 0xA1 sample_requested) 9 sample_cleartexts [1]
       = Inr ((deployed sample_fhe 0xA1 sample_requested)
                \<lparr> decryptionContexts :=
                    (decryptionContexts (deployed sample_fhe 0xA1 sample_requested))
                      (9 := \<lparr> batchId = 1, stateHash = 213, processed = True \<rparr>) \<rparr>,
              [DecryptionCompleted 9 1 [5, 6, 7]])
   \<and> myCallback sample_fhe (deployed sample_fhe 0xA1 sample_requested) 9 [] [1]
       = Inr ((deployed sample_fhe 0xA1 sample_requested)
                \<lparr> decryptionContexts :=
                    (decryptionContexts (deployed sample_fhe 0xA1 sample_requested))
                      (9 := \<lparr> batchId = 1, stateHash = 213, processed = True \<rparr>) \<rparr>,
              [DecryptionCompleted 9 1 [1, 2 ^ 248, 1]])"
proof -
  have ctx: "decryptionContexts (deployed sample_fhe 0xA1 sample_requested) 9
               = \<lparr> batchId = 1, stateHash = 213, processed = False \<rparr>"
    by (simp add: sample_defs call_defs)
  have ds: "batchEncryptedData (deployed sample_fhe 0xA1 sample_requested) 1
               = [\<lparr> antigenAffinity = 5, antibodyCount = 6, tCellEffectiveness = 7 \<rparr>]"
    by (simp add: sample_defs call_defs)
  have h: "hashCiphertexts sample_fhe
              [toBytes32 sample_fhe (homomorphic_sum sample_fhe antigenAffinity
                 [\<lparr> antigenAffinity = 5, antibodyCount = 6, tCellEffectiveness = 7 \<rparr>]),
               toBytes32 sample_fhe (homomorphic_sum sample_fhe antibodyCount
                 [\<lparr> antigenAffinity = 5, antibodyCount = 6, tCellEffectiveness = 7 \<rparr>]),
               toBytes32 sample_fhe (homomorphic_sum sample_fhe tCellEffectiveness
                 [\<lparr> antigenAffinity = 5, antibodyCount = 6, tCellEffectiveness = 7 \<rparr>])]
             = 213"
    by (simp add: hashCiphertexts_def homomorphic_sum_def sample_fhe_def)
  have sig: "\<not> checkSignatures sample_fhe 9 sample_cleartexts [2]"
    "checkSignatures sample_fhe 9 sample_cleartexts [1]" "checkSignatures sample_fhe 9 [] [1]"
    by (simp_all add: sample_fhe_def)
  show ?thesis
    using callback_check_order [of "deployed sample_fhe 0xA1 sample_requested" 9 sample_fhe
        sample_cleartexts "[2]" "0xE5" 140]
      callback_check_order [of "deployed sample_fhe 0xA1 sample_requested" 9 sample_fhe
        sample_cleartexts "[1]" "0xE5" 140]
      callback_check_order [of "deployed sample_fhe 0xA1 sample_requested" 9 sample_fhe
        "[]" "[1]" "0xE5" 140]
    by (simp add: ctx ds h sig sample_results short_results Let_def)
qed

text \<open>
  C10: \<open>myCallback\<close> is open to every caller and is not gated by the pause flag: it
  never reverts with \<open>Paused\<close>, \<open>NotOwner\<close> or \<open>NotProvider\<close>, the only errors it
  reverts with are \<open>ReplayAttempt\<close>, \<open>StateMismatch\<close> and \<open>InvalidProof\<close>, and its
  outcome is the same for every caller, time, owner, provider set and pause flag.
\<close>

theorem callback_ungated:
  "(let out = snd (execute env st \<lparr> sender = s, timestamp = t, called = MyCallback r c p \<rparr>)
    in out \<notin> {Reverted Paused, Reverted NotOwner, Reverted NotProvider}
     \<and> (\<forall>e. out = Reverted e \<longrightarrow> e \<in> {ReplayAttempt, StateMismatch, InvalidProof})
     \<and> snd (execute env (st\<lparr> owner := ow, isProvider := ip, paused := pa \<rparr>)
               \<lparr> sender = s', timestamp = t', called = MyCallback r c p \<rparr>) = out)"
  by (simp add: myCallback_def execute_def myCallback_cts_sums Let_def)

theorem callback_ungated_witness:
  "paused (deployed sample_fhe 0xA1 sample_paused)
   \<and> owner (deployed sample_fhe 0xA1 sample_paused) \<noteq> 0xE5
   \<and> \<not> isProvider (deployed sample_fhe 0xA1 sample_paused) 0xE5
   \<and> snd (execute sample_fhe (deployed sample_fhe 0xA1 sample_paused)
            \<lparr> sender = 0xE5, timestamp = 140, called = MyCallback 9 sample_cleartexts [1] \<rparr>)
       = Success [DecryptionCompleted 9 1 [5, 6, 7]]
   \<and> snd (execute sample_fhe (deployed sample_fhe 0xA1 sample_paused)
            \<lparr> sender = 0xE5, timestamp = 140, called = MyCallback 9 sample_cleartexts [1] \<rparr>)
       \<notin> {Reverted Paused, Reverted NotOwner, Reverted NotProvider}"
proof -
  have 1: "paused (deployed sample_fhe 0xA1 sample_paused)"
    by (simp add: sample_defs call_defs)
  have 2: "owner (deployed sample_fhe 0xA1 sample_paused) \<noteq> 0xE5"
    by (simp add: sample_defs call_defs)
  have 3: "\<not> isProvider (deployed sample_fhe 0xA1 sample_paused) 0xE5"
    by (simp add: sample_defs call_defs)
  have 4: "snd (execute sample_fhe (deployed sample_fhe 0xA1 sample_paused)
            \<lparr> sender = 0xE5, timestamp = 140, called = MyCallback 9 sample_cleartexts [1] \<rparr>)
       = Success [DecryptionCompleted 9 1 [5, 6, 7]]"
    by (simp add: sample_defs call_defs sample_results)
  show ?thesis
    using 1 2 3 4 callback_ungated [of sample_fhe "deployed sample_fhe 0xA1 sample_paused"
        "0xE5" 140 9 sample_cleartexts "[1]"]
    by (simp add: Let_def)
qed

subsection \<open>Access control\<close>

lemma isProvider_upd_neq:
  "isProvider st p \<noteq> v \<Longrightarrow> st\<lparr> isProvider := (isProvider st)(p := v) \<rparr> \<noteq> st"
proof
  assume a: "isProvider st p \<noteq> v" and e: "st\<lparr> isProvider := (isProvider st)(p := v) \<rparr> = st"
  have "isProvider (st\<lparr> isProvider := (isProvider st)(p := v) \<rparr>) p = v" by simp
  with e have "isProvider st p = v" by simp
  with a show False by simp
qed

lemma paused_upd_neq: "paused st \<noteq> q \<Longrightarrow> st\<lparr> paused := q \<rparr> \<noteq> st"
proof
  assume a: "paused st \<noteq> q" and e: "st\<lparr> paused := q \<rparr> = st"
  have "paused (st\<lparr> paused := q \<rparr>) = q" by simp
  with e have "paused st = q" by simp
  with a show False by simp
qed

text \<open>
  C7: \<open>addProvider\<close>, \<open>removeProvider\<close> and \<open>setPaused\<close> are idempotent. For the
  owner, adding a provider that is one, removing an address that is none and setting
  the pause flag to its value change nothing and emit nothing. Whenever one of the
  three succeeds, it emits its event exactly when it changes the storage, and at most
  that one event. Two calls \<open>setPaused(true)\<close> in a row emit \<open>ContractPaused\<close> at
  most once: the second changes nothing and emits nothing.
\<close>

theorem access_control_idempotent:
  "(isProvider st p \<longrightarrow> addProvider st (owner st) p = Inr (st, []))
   \<and> (\<not> isProvider st p \<longrightarrow> removeProvider st (owner st) p = Inr (st, []))
   \<and> setPaused st (owner st) (paused st) = Inr (st, [])
   \<and> (\<forall>st' evs. addProvider st s p = Inr (st', evs) \<longrightarrow>
         (evs = [] \<longleftrightarrow> st' = st) \<and> (evs \<noteq> [] \<longrightarrow> evs = [ProviderAdded p]))
   \<and> (\<forall>st' evs. removeProvider st s p = Inr (st', evs) \<longrightarrow>
         (evs = [] \<longleftrightarrow> st' = st) \<and> (evs \<noteq> [] \<longrightarrow> evs = [ProviderRemoved p]))
   \<and> (\<forall>st' evs. setPaused st s q = Inr (st', evs) \<longrightarrow>
         (evs = [] \<longleftrightarrow> st' = st)
         \<and> (evs \<noteq> [] \<longrightarrow> evs = [if q then ContractPaused s else ContractUnpaused s]))
   \<and> (let first = execute env st \<lparr> sender = owner st, timestamp = t1, called = SetPaused True \<rparr>;
           second = execute env (fst first)
                      \<lparr> sender = owner st, timestamp = t2, called = SetPaused True \<rparr>
       in snd first = Success (if paused st then [] else [ContractPaused (owner st)])
        \<and> second = (fst first, Success []))"
proof -
  have 1: "isProvider st p \<longrightarrow> addProvider st (owner st) p = Inr (st, [])"
    by (simp add: addProvider_def require_ok_def onlyOwner_def)
  have 2: "\<not> isProvider st p \<longrightarrow> removeProvider st (owner st) p = Inr (st, [])"
    by (simp add: removeProvider_def require_ok_def onlyOwner_def)
  have 3: "setPaused st (owner st) (paused st) = Inr (st, [])"
    by (simp add: setPaused_def require_ok_def onlyOwner_def)
  have 4: "\<forall>st' evs. addProvider st s p = Inr (st', evs) \<longrightarrow>
         (evs = [] \<longleftrightarrow> st' = st) \<and> (evs \<noteq> [] \<longrightarrow> evs = [ProviderAdded p])"
    using isProvider_upd_neq [of st p True]
    by (auto simp: addProvider_def require_ok_def onlyOwner_def split: if_splits)
  have 5: "\<forall>st' evs. removeProvider st s p = Inr (st', evs) \<longrightarrow>
         (evs = [] \<longleftrightarrow> st' = st) \<and> (evs \<noteq> [] \<longrightarrow> evs = [ProviderRemoved p])"
    using isProvider_upd_neq [of st p False]
    by (auto simp: removeProvider_def require_ok_def onlyOwner_def split: if_splits)
  have 6: "\<forall>st' evs. setPaused st s q = Inr (st', evs) \<longrightarrow>
         (evs = [] \<longleftrightarrow> st' = st)
         \<and> (evs \<noteq> [] \<longrightarrow> evs = [if q then ContractPaused s else ContractUnpaused s])"
    using paused_upd_neq [of st q]
    by (auto simp: setPaused_def require_ok_def onlyOwner_def split: if_splits)
  have 7: "(let first = execute env st \<lparr> sender = owner st, timestamp = t1, called = SetPaused True \<rparr>;
           second = execute env (fst first)
                      \<lparr> sender = owner st, timestamp = t2, called = SetPaused True \<rparr>
       in snd first = Success (if paused st then [] else [ContractPaused (owner st)])
        \<and> second = (fst first, Success []))"
    by (simp add: execute_def setPaused_def require_ok_def onlyOwner_def Let_def)
  show ?thesis using 1 2 3 4 5 6 7 by blast
qed

theorem access_control_idempotent_witness:
  "isProvider (deployed sample_fhe 0xA1 sample_open) 0xB2
   \<and> addProvider (deployed sample_fhe 0xA1 sample_open) 0xA1 0xB2
       = Inr (deployed sample_fhe 0xA1 sample_open, [])
   \<and> \<not> isProvider (deployed sample_fhe 0xA1 sample_open) 0xE5
   \<and> removeProvider (deployed sample_fhe 0xA1 sample_open) 0xA1 0xE5
       = Inr (deployed sample_fhe 0xA1 sample_open, [])
   \<and> snd (execute sample_fhe (deployed sample_fhe 0xA1 sample_open)
            \<lparr> sender = 0xA1, timestamp = 200, called = SetPaused True \<rparr>)
       = Success [ContractPaused 0xA1]
   \<and> snd (execute sample_fhe
            (fst (execute sample_fhe (deployed sample_fhe 0xA1 sample_open)
                    \<lparr> sender = 0xA1, timestamp = 200, called = SetPaused True \<rparr>))
            \<lparr> sender = 0xA1, timestamp = 201, called = SetPaused True \<rparr>)
       = Success []"
proof -
  have o: "owner (deployed sample_fhe 0xA1 sample_open) = 0xA1"
    by (simp add: sample_defs call_defs)
  have p: "isProvider (deployed sample_fhe 0xA1 sample_open) 0xB2"
    by (simp add: sample_defs call_defs)
  have q: "\<not> isProvider (deployed sample_fhe 0xA1 sample_open) 0xE5"
    by (simp add: sample_defs call_defs)
  have r: "\<not> paused (deployed sample_fhe 0xA1 sample_open)"
    by (simp add: sample_defs call_defs)
  show ?thesis
    using access_control_idempotent [of "deployed sample_fhe 0xA1 sample_open" "0xB2"
        "0xA1" True sample_fhe 200 201]
      access_control_idempotent [of "deployed sample_fhe 0xA1 sample_open" "0xE5"
        "0xA1" True sample_fhe 200 201]
    by (simp add: o p q r Let_def)
qed

subsection \<open>Aggregation\<close>

text \<open>
  C5: the aggregation is a function of the batch's record list alone. The three
  ciphertexts and the hash that \<open>myCallback\<close> computes on a storage whose record
  list for the batch is the one \<open>requestBatchAnalysis\<close> read are those that
  \<open>requestBatchAnalysis\<close> computed (the external addition and hash being functions
  of their arguments). So a callback for a request that was accepted, on a storage
  that still has the batch's records and the request's context, fails neither with
  \<open>StateMismatch\<close> nor with \<open>ReplayAttempt\<close>.
\<close>

theorem aggregation_deterministic:
  "(batchEncryptedData st' b = batchEncryptedData st b \<longrightarrow>
      myCallback_cts env st' b = requestBatchAnalysis_cts env st b
      \<and> hashCiphertexts env (myCallback_cts env st' b)
          = hashCiphertexts env (requestBatchAnalysis_cts env st b))
   \<and> (is_success (snd (execute env st
                          \<lparr> sender = s, timestamp = t, called = RequestBatchAnalysis b r \<rparr>))
        \<and> batchEncryptedData st2 b = batchEncryptedData st b
        \<and> decryptionContexts st2 r
            = decryptionContexts (fst (execute env st
                \<lparr> sender = s, timestamp = t, called = RequestBatchAnalysis b r \<rparr>)) r
      \<longrightarrow> myCallback env st2 r c p \<noteq> Inl StateMismatch
          \<and> myCallback env st2 r c p \<noteq> Inl ReplayAttempt)"
proof -
  have 1: "batchEncryptedData st' b = batchEncryptedData st b \<longrightarrow>
      myCallback_cts env st' b = requestBatchAnalysis_cts env st b
      \<and> hashCiphertexts env (myCallback_cts env st' b)
          = hashCiphertexts env (requestBatchAnalysis_cts env st b)"
    by (simp add: myCallback_cts_sums requestBatchAnalysis_cts_sums)
  have 2: "is_success (snd (execute env st
                          \<lparr> sender = s, timestamp = t, called = RequestBatchAnalysis b r \<rparr>))
        \<and> batchEncryptedData st2 b = batchEncryptedData st b
        \<and> decryptionContexts st2 r
            = decryptionContexts (fst (execute env st
                \<lparr> sender = s, timestamp = t, called = RequestBatchAnalysis b r \<rparr>)) r
      \<longrightarrow> myCallback env st2 r c p \<noteq> Inl StateMismatch
          \<and> myCallback env st2 r c p \<noteq> Inl ReplayAttempt"
    by (auto simp: execute_def requestBatchAnalysis_def myCallback_def require_ok_def Let_def
        myCallback_cts_sums requestBatchAnalysis_cts_sums
        split: option.splits if_splits)
  show ?thesis using 1 2 by blast
qed

theorem aggregation_deterministic_witness:
  "myCallback_cts sample_fhe (deployed sample_fhe 0xA1 sample_paused) 1
     = requestBatchAnalysis_cts sample_fhe (deployed sample_fhe 0xA1 sample_closed) 1
   \<and> requestBatchAnalysis_cts sample_fhe (deployed sample_fhe 0xA1 sample_closed) 1 = [6, 7, 8]
   \<and> myCallback sample_fhe (deployed sample_fhe 0xA1 sample_paused) 9 [] [1]
       \<noteq> Inl StateMismatch"
proof -
  have d0: "batchEncryptedData (deployed sample_fhe 0xA1 sample_closed) 1
              = [\<lparr> antigenAffinity = 5, antibodyCount = 6, tCellEffectiveness = 7 \<rparr>]"
    by (simp add: sample_defs call_defs)
  have d2: "batchEncryptedData (deployed sample_fhe 0xA1 sample_paused) 1
              = [\<lparr> antigenAffinity = 5, antibodyCount = 6, tCellEffectiveness = 7 \<rparr>]"
    by (simp add: sample_defs call_defs)
  have ok: "is_success (snd (execute sample_fhe (deployed sample_fhe 0xA1 sample_closed)
              \<lparr> sender = 0xA1, timestamp = 130, called = RequestBatchAnalysis 1 9 \<rparr>))"
    by (simp add: sample_defs call_defs)
  have c1: "decryptionContexts (fst (execute sample_fhe (deployed sample_fhe 0xA1 sample_closed)
              \<lparr> sender = 0xA1, timestamp = 130, called = RequestBatchAnalysis 1 9 \<rparr>)) 9
            = \<lparr> batchId = 1, stateHash = 213, processed = False \<rparr>"
    by (simp add: sample_defs call_defs)
  have c2: "decryptionContexts (deployed sample_fhe 0xA1 sample_paused) 9
            = \<lparr> batchId = 1, stateHash = 213, processed = False \<rparr>"
    by (simp add: sample_defs call_defs)
  have v: "requestBatchAnalysis_cts sample_fhe (deployed sample_fhe 0xA1 sample_closed) 1
             = [6, 7, 8]"
    unfolding requestBatchAnalysis_cts_sums d0
    by (simp add: homomorphic_sum_def sample_fhe_def)
  show ?thesis
    using aggregation_deterministic [of "deployed sample_fhe 0xA1 sample_paused" 1
        "deployed sample_fhe 0xA1 sample_closed" sample_fhe "0xA1" 130 9
        "deployed sample_fhe 0xA1 sample_paused" "[]" "[1]"]
    by (simp add: d0 d2 ok c1 c2 v)
qed

subsection \<open>The batch ledger and the analysis request\<close>

lemma off_cooldown:
  assumes "unat a + unat c \<le> unat (t :: uint256)"
  shows "checked_add a c = Some (a + c)" and "\<not> t < a + c"
proof -
  have "unat t < 2 ^ 256" using unsigned_less [of t] by simp
  with assms have lt: "unat a + unat c < 2 ^ 256" by simp
  then show "checked_add a c = Some (a + c)" by (simp add: checked_add_def)
  have "unat (a + c) = unat a + unat c" using lt unat_add_lem [of a c] by simp
  with assms show "\<not> t < a + c" by (simp add: word_less_nat_alt)
qed

lemma deployed_count_zero_iff:
  "totalEncryptedDataPoints (batches (deployed env d xs) b) = 0
     \<longleftrightarrow> batchEncryptedData (deployed env d xs) b = []"
proof -
  have "unat (totalEncryptedDataPoints (batches (deployed env d xs) b))
          = length (batchEncryptedData (deployed env d xs) b)"
    using ledger_inv_deployed [of env d xs] by (simp add: ledger_inv_def)
  then show ?thesis by (metis length_0_conv unat_eq_zero)
qed

text \<open>
  C3: a call \<open>requestBatchAnalysis(b)\<close> by the owner, while the contract is not
  paused and the owner's cooldown is over, reverts with \<open>InvalidBatchId\<close> if and
  only if \<open>b\<close> is 0, exceeds \<open>currentBatchId\<close>, names a batch that is not closed, or
  names a batch whose record count is 0 (in a storage reached from deployment, a
  batch whose record list is empty). Otherwise it sums each of the three fields over
  the batch's record list from left to right, starting from the encrypted zero, stores
  under the request id issued by the oracle a context with the batch id, the hash of
  the three sums and \<open>processed = False\<close>, records the time of the request, and emits
  \<open>DecryptionRequested\<close>.
\<close>

theorem requestBatchAnalysis_accepts:
  "s = owner st \<Longrightarrow> \<not> paused st \<Longrightarrow>
   unat (lastDecryptionRequestTime st s) + unat (cooldownSeconds st) \<le> unat t \<Longrightarrow>
   (let invalid = (b = 0 \<or> currentBatchId st < b \<or> \<not> closed (batches st b)
                   \<or> totalEncryptedDataPoints (batches st b) = 0);
        ds = batchEncryptedData st b;
        h = hashCiphertexts env
              [toBytes32 env (homomorphic_sum env antigenAffinity ds),
               toBytes32 env (homomorphic_sum env antibodyCount ds),
               toBytes32 env (homomorphic_sum env tCellEffectiveness ds)]
    in (requestBatchAnalysis env st s t b r = Inl InvalidBatchId \<longleftrightarrow> invalid)
     \<and> (\<not> invalid \<longrightarrow>
          requestBatchAnalysis env st s t b r =
            Inr (st\<lparr> decryptionContexts := (decryptionContexts st)
                        (r := \<lparr> batchId = b, stateHash = h, processed = False \<rparr>),
                     lastDecryptionRequestTime := (lastDecryptionRequestTime st)(s := t) \<rparr>,
                 [DecryptionRequested r b h]))
     \<and> (st = deployed env d xs \<longrightarrow>
          (totalEncryptedDataPoints (batches st b) = 0 \<longleftrightarrow> ds = [])))"
proof -
  assume o: "s = owner st" and p: "\<not> paused st"
    and c: "unat (lastDecryptionRequestTime st s) + unat (cooldownSeconds st) \<le> unat t"
  have cd: "checkDecryptionCooldown st s t = None"
    using off_cooldown [OF c] by (simp add: checkDecryptionCooldown_def)
  show ?thesis
    using o p cd
    by (simp add: requestBatchAnalysis_def require_ok_def onlyOwner_def whenNotPaused_def
        requestBatchAnalysis_cts_sums Let_def deployed_count_zero_iff)
qed

theorem requestBatchAnalysis_accepts_witness:
  "requestBatchAnalysis sample_fhe (deployed sample_fhe 0xA1 sample_closed) 0xA1 130 0 9
     = Inl InvalidBatchId
   \<and> requestBatchAnalysis sample_fhe (deployed sample_fhe 0xA1 sample_closed) 0xA1 130 2 9
     = Inl InvalidBatchId
   \<and> requestBatchAnalysis sample_fhe (deployed sample_fhe 0xA1 sample_closed) 0xA1 130 1 9
     = Inr ((deployed sample_fhe 0xA1 sample_closed)
              \<lparr> decryptionContexts :=
                  (decryptionContexts (deployed sample_fhe 0xA1 sample_closed))
                    (9 := \<lparr> batchId = 1, stateHash = 213, processed = False \<rparr>),
                lastDecryptionRequestTime :=
                  (lastDecryptionRequestTime (deployed sample_fhe 0xA1 sample_closed))
                    (0xA1 := 130) \<rparr>,
            [DecryptionRequested 9 1 213])"
proof -
  have o: "0xA1 = owner (deployed sample_fhe 0xA1 sample_closed)"
    by (simp add: sample_defs call_defs)
  have p: "\<not> paused (deployed sample_fhe 0xA1 sample_closed)"
    by (simp add: sample_defs call_defs)
  have c: "unat (lastDecryptionRequestTime (deployed sample_fhe 0xA1 sample_closed) 0xA1)
             + unat (cooldownSeconds (deployed sample_fhe 0xA1 sample_closed))
           \<le> unat (130 :: uint256)"
    by (simp add: sample_defs call_defs)
  have cur: "currentBatchId (deployed sample_fhe 0xA1 sample_closed) = 1"
    by (simp add: sample_defs call_defs)
  have b1: "batches (deployed sample_fhe 0xA1 sample_closed) 1
              = \<lparr> id_batch = 1, totalEncryptedDataPoints = 1, closed = True \<rparr>"
    by (simp add: sample_defs call_defs)
  have ds: "batchEncryptedData (deployed sample_fhe 0xA1 sample_closed) 1
              = [\<lparr> antigenAffinity = 5, antibodyCount = 6, tCellEffectiveness = 7 \<rparr>]"
    by (simp add: sample_defs call_defs)
  have h: "hashCiphertexts sample_fhe
              [toBytes32 sample_fhe (homomorphic_sum sample_fhe antigenAffinity
                 [\<lparr> antigenAffinity = 5, antibodyCount = 6, tCellEffectiveness = 7 \<rparr>]),
               toBytes32 sample_fhe (homomorphic_sum sample_fhe antibodyCount
                 [\<lparr> antigenAffinity = 5, antibodyCount = 6, tCellEffectiveness = 7 \<rparr>]),
               toBytes32 sample_fhe (homomorphic_sum sample_fhe tCellEffectiveness
                 [\<lparr> antigenAffinity = 5, antibodyCount = 6, tCellEffectiveness = 7 \<rparr>])]
             = 213"
    by (simp add: hashCiphertexts_def homomorphic_sum_def sample_fhe_def)
  show ?thesis
    using requestBatchAnalysis_accepts [OF o p c, of 0 sample_fhe 9]
      requestBatchAnalysis_accepts [OF o p c, of 2 sample_fhe 9]
      requestBatchAnalysis_accepts [OF o p c, of 1 sample_fhe 9]
    by (simp add: cur b1 ds h Let_def)
qed

text \<open>
  C4: after deployment and any sequence of transactions, the record count of every
  batch, and the length of its record list, is the number of accepted
  \<open>submitEncryptedData\<close> calls that were made while it was the current batch. A
  rejected \<open>submitEncryptedData\<close> call leaves the whole storage as it was, so the
  count and the list of every batch; it is rejected for an unauthorized caller, a
  paused contract, an active cooldown, an uninitialised ciphertext, a closed batch
  or an arithmetic overflow.
\<close>

theorem recordCount_counts_accepted:
  "unat (totalEncryptedDataPoints (batches (deployed env d xs) b))
     = accepted_submissions env (fst (constructor d)) xs b
   \<and> length (batchEncryptedData (deployed env d xs) b)
     = accepted_submissions env (fst (constructor d)) xs b
   \<and> (is_submission (called x) \<and> \<not> is_success (snd (execute env st x))
        \<longrightarrow> fst (execute env st x) = st)
   \<and> (\<forall>e. submitEncryptedData env st s t u v w = Inl e \<longrightarrow>
         e \<in> {NotProvider, Paused, CooldownActive, NotInitialized, BatchClosedOrInvalid,
              Panic_0x11})"
proof -
  have i0: "ledger_inv (fst (constructor d))" by (rule ledger_inv_constructor)
  have z: "unat (totalEncryptedDataPoints (batches (fst (constructor d)) b)) = 0"
    by (simp add: constructor_def)
  have 1: "unat (totalEncryptedDataPoints (batches (deployed env d xs) b))
             = accepted_submissions env (fst (constructor d)) xs b"
    using count_run [OF i0, of env xs b] z by (simp add: deployed_def)
  have "unat (totalEncryptedDataPoints (batches (deployed env d xs) b))
          = length (batchEncryptedData (deployed env d xs) b)"
    using ledger_inv_deployed [of env d xs] by (simp add: ledger_inv_def)
  with 1 have 2: "length (batchEncryptedData (deployed env d xs) b)
                    = accepted_submissions env (fst (constructor d)) xs b"
    by simp
  have 3: "is_submission (called x) \<and> \<not> is_success (snd (execute env st x))
             \<longrightarrow> fst (execute env st x) = st"
    by (auto simp: execute_def split: sum.splits)
  have 4: "\<forall>e. submitEncryptedData env st s t u v w = Inl e \<longrightarrow>
         e \<in> {NotProvider, Paused, CooldownActive, NotInitialized, BatchClosedOrInvalid,
              Panic_0x11}"
    by (auto simp: submitEncryptedData_def require_ok_def onlyProvider_def whenNotPaused_def
        checkSubmissionCooldown_def initIfNeeded_def Let_def split: option.splits if_splits)
  show ?thesis using 1 2 3 4 by blast
qed

theorem recordCount_counts_accepted_witness:
  "accepted_submissions sample_fhe (fst (constructor 0xA1)) sample_late 1 = 1
   \<and> unat (totalEncryptedDataPoints (batches (deployed sample_fhe 0xA1 sample_late) 1)) = 1
   \<and> length (batchEncryptedData (deployed sample_fhe 0xA1 sample_late) 1) = 1
   \<and> snd (execute sample_fhe (deployed sample_fhe 0xA1 sample_closed)
            \<lparr> sender = 0xB2, timestamp = 125, called = SubmitEncryptedData 8 9 10 \<rparr>)
       = Reverted BatchClosedOrInvalid
   \<and> fst (execute sample_fhe (deployed sample_fhe 0xA1 sample_closed)
            \<lparr> sender = 0xB2, timestamp = 125, called = SubmitEncryptedData 8 9 10 \<rparr>)
       = deployed sample_fhe 0xA1 sample_closed"
proof -
  have a: "accepted_submissions sample_fhe (fst (constructor 0xA1)) sample_late 1 = 1"
    by (simp add: sample_defs call_defs)
  have r: "snd (execute sample_fhe (deployed sample_fhe 0xA1 sample_closed)
            \<lparr> sender = 0xB2, timestamp = 125, called = SubmitEncryptedData 8 9 10 \<rparr>)
       = Reverted BatchClosedOrInvalid"
    by (simp add: sample_defs call_defs)
  show ?thesis
    using recordCount_counts_accepted [where env = sample_fhe and d = "0xA1"
        and xs = sample_late and b = 1
        and x = "\<lparr> sender = 0xB2, timestamp = 125, called = SubmitEncryptedData 8 9 10 \<rparr>"
        and st = "deployed sample_fhe 0xA1 sample_closed"]
    by (simp add: a r)
qed

lemma accepted_le_length: "accepted_submissions env st xs b \<le> length xs"
proof (induction xs arbitrary: st)
  case Nil
  then show ?case by simp
next
  case (Cons x xs)
  have "accepted_submissions env (fst (execute env st x)) xs b \<le> length xs"
    by (rule Cons.IH)
  then show ?case by simp
qed

lemma deployed_count_le_length:
  "unat (totalEncryptedDataPoints (batches (deployed env d xs) b)) \<le> length xs"
proof -
  have "unat (totalEncryptedDataPoints (batches (fst (constructor d)) b)) = 0"
    by (simp add: constructor_def)
  then have "unat (totalEncryptedDataPoints (batches (deployed env d xs) b))
               = accepted_submissions env (fst (constructor d)) xs b"
    using count_run [OF ledger_inv_constructor [of d], of env xs b]
    by (simp add: deployed_def)
  then show ?thesis using accepted_le_length [of env "fst (constructor d)" xs b] by simp
qed

lemma below_max_increment:
  "unat a + 1 < 2 ^ 256 \<Longrightarrow> checked_add a 1 = Some (a + 1)"
  by (simp add: checked_add_def)

text \<open>
  C9: in a storage reached from deployment in which no batch was opened
  (\<open>currentBatchId = 0\<close>), a submission by a provider with initialised ciphertexts,
  contract not paused and cooldown over, does not revert with
  \<open>BatchClosedOrInvalid\<close>: as long as the counter of batch 0 is below \<open>2^256 - 1\<close>
  it appends the record to the list of batch 0 and increments
  \<open>batches[0].totalEncryptedDataPoints\<close>; the counter is below \<open>2^256 - 1\<close>
  whenever fewer than \<open>2^256 - 1\<close> transactions were made since deployment. And \<open>requestBatchAnalysis(0)\<close> never
  succeeds, in any storage; for the owner, not paused and off cooldown, it reverts
  with \<open>InvalidBatchId\<close>.
\<close>

theorem submission_before_first_batch:
  assumes "st = deployed env d xs" and "currentBatchId st = 0"
    and "isProvider st s" and "\<not> paused st"
    and "isInitialized env x" and "isInitialized env y" and "isInitialized env z"
    and "unat (lastSubmissionTime st s) + unat (cooldownSeconds st) \<le> unat t"
  shows "submitEncryptedData env st s t x y z \<noteq> Inl BatchClosedOrInvalid
     \<and> (unat (totalEncryptedDataPoints (batches st 0)) + 1 < 2 ^ 256 \<longrightarrow>
         submitEncryptedData env st s t x y z =
           Inr (st\<lparr> batchEncryptedData := (batchEncryptedData st)
                       (0 := batchEncryptedData st 0 @
                          [\<lparr> antigenAffinity = x, antibodyCount = y,
                             tCellEffectiveness = z \<rparr>]),
                    batches := (batches st)
                       (0 := (batches st 0)\<lparr> totalEncryptedDataPoints :=
                                totalEncryptedDataPoints (batches st 0) + 1 \<rparr>),
                    lastSubmissionTime := (lastSubmissionTime st)(s := t) \<rparr>,
                [DataSubmitted s 0 1]))
     \<and> (length xs + 1 < 2 ^ 256 \<longrightarrow>
         unat (totalEncryptedDataPoints (batches st 0)) + 1 < 2 ^ 256)
     \<and> isl (requestBatchAnalysis env st2 s2 t2 0 r)
     \<and> (s2 = owner st2 \<and> \<not> paused st2
         \<and> unat (lastDecryptionRequestTime st2 s2) + unat (cooldownSeconds st2) \<le> unat t2
        \<longrightarrow> requestBatchAnalysis env st2 s2 t2 0 r = Inl InvalidBatchId)"
proof -
  have open0: "\<not> closed (batches st 0)"
    using batch0_open_deployed [of env d xs] assms(1) by simp
  have cd: "checkSubmissionCooldown st s t = None"
    using off_cooldown [OF assms(8)] by (simp add: checkSubmissionCooldown_def)
  have 1: "submitEncryptedData env st s t x y z \<noteq> Inl BatchClosedOrInvalid"
    using assms(2-7) open0 cd
    by (simp add: submitEncryptedData_def require_ok_def onlyProvider_def whenNotPaused_def
        initIfNeeded_def Let_def split: option.splits)
  have 2: "unat (totalEncryptedDataPoints (batches st 0)) + 1 < 2 ^ 256 \<longrightarrow>
         submitEncryptedData env st s t x y z =
           Inr (st\<lparr> batchEncryptedData := (batchEncryptedData st)
                       (0 := batchEncryptedData st 0 @
                          [\<lparr> antigenAffinity = x, antibodyCount = y,
                             tCellEffectiveness = z \<rparr>]),
                    batches := (batches st)
                       (0 := (batches st 0)\<lparr> totalEncryptedDataPoints :=
                                totalEncryptedDataPoints (batches st 0) + 1 \<rparr>),
                    lastSubmissionTime := (lastSubmissionTime st)(s := t) \<rparr>,
                [DataSubmitted s 0 1])"
    using assms(2-7) open0 cd below_max_increment [of "totalEncryptedDataPoints (batches st 0)"]
    by (simp add: submitEncryptedData_def require_ok_def onlyProvider_def whenNotPaused_def
        initIfNeeded_def Let_def)
  have 3: "isl (requestBatchAnalysis env st2 s2 t2 0 r)"
    by (simp add: requestBatchAnalysis_def require_ok_def split: option.splits)
  have 4: "s2 = owner st2 \<and> \<not> paused st2
         \<and> unat (lastDecryptionRequestTime st2 s2) + unat (cooldownSeconds st2) \<le> unat t2
        \<longrightarrow> requestBatchAnalysis env st2 s2 t2 0 r = Inl InvalidBatchId"
  proof
    assume a: "s2 = owner st2 \<and> \<not> paused st2
         \<and> unat (lastDecryptionRequestTime st2 s2) + unat (cooldownSeconds st2) \<le> unat t2"
    then have le: "unat (lastDecryptionRequestTime st2 s2) + unat (cooldownSeconds st2)
                     \<le> unat t2"
      by blast
    have "checkDecryptionCooldown st2 s2 t2 = None"
      using off_cooldown [OF le] by (simp add: checkDecryptionCooldown_def)
    with a show "requestBatchAnalysis env st2 s2 t2 0 r = Inl InvalidBatchId"
      by (simp add: requestBatchAnalysis_def require_ok_def onlyOwner_def whenNotPaused_def)
  qed
  have 5: "length xs + 1 < 2 ^ 256 \<longrightarrow>
         unat (totalEncryptedDataPoints (batches st 0)) + 1 < 2 ^ 256"
    using deployed_count_le_length [of env d xs 0] assms(1) by simp
  show ?thesis using 1 2 3 4 5 by blast
qed

theorem submission_before_first_batch_witness:
  "currentBatchId (deployed sample_fhe 0xA1 sample_unopened) = 0
   \<and> submitEncryptedData sample_fhe (deployed sample_fhe 0xA1 sample_unopened) 0xB2 100 5 6 7
       \<noteq> Inl BatchClosedOrInvalid
   \<and> submitEncryptedData sample_fhe (deployed sample_fhe 0xA1 sample_unopened) 0xB2 100 5 6 7
       = Inr ((deployed sample_fhe 0xA1 sample_unopened)
                \<lparr> batchEncryptedData :=
                    (batchEncryptedData (deployed sample_fhe 0xA1 sample_unopened))
                      (0 := [\<lparr> antigenAffinity = 5, antibodyCount = 6,
                               tCellEffectiveness = 7 \<rparr>]),
                  batches := (batches (deployed sample_fhe 0xA1 sample_unopened))
                      (0 := \<lparr> id_batch = 0, totalEncryptedDataPoints = 1, closed = False \<rparr>),
                  lastSubmissionTime :=
                    (lastSubmissionTime (deployed sample_fhe 0xA1 sample_unopened))
                      (0xB2 := 100) \<rparr>,
              [DataSubmitted 0xB2 0 1])
   \<and> requestBatchAnalysis sample_fhe (deployed sample_fhe 0xA1 sample_unopened) 0xA1 200 0 9
       = Inl InvalidBatchId"
proof -
  have c: "currentBatchId (deployed sample_fhe 0xA1 sample_unopened) = 0"
    by (simp add: sample_defs call_defs)
  have p: "isProvider (deployed sample_fhe 0xA1 sample_unopened) 0xB2"
    by (simp add: sample_defs call_defs)
  have q: "\<not> paused (deployed sample_fhe 0xA1 sample_unopened)"
    by (simp add: sample_defs call_defs)
  have i: "isInitialized sample_fhe 5" "isInitialized sample_fhe 6" "isInitialized sample_fhe 7"
    by (simp_all add: sample_fhe_def)
  have t: "unat (lastSubmissionTime (deployed sample_fhe 0xA1 sample_unopened) 0xB2)
             + unat (cooldownSeconds (deployed sample_fhe 0xA1 sample_unopened))
           \<le> unat (100 :: uint256)"
    by (simp add: sample_defs call_defs)
  have o: "owner (deployed sample_fhe 0xA1 sample_unopened) = 0xA1"
    by (simp add: sample_defs call_defs)
  have t2: "unat (lastDecryptionRequestTime (deployed sample_fhe 0xA1 sample_unopened) 0xA1)
             + unat (cooldownSeconds (deployed sample_fhe 0xA1 sample_unopened))
           \<le> unat (200 :: uint256)"
    by (simp add: sample_defs call_defs)
  have b0: "batches (deployed sample_fhe 0xA1 sample_unopened) 0
              = \<lparr> id_batch = 0, totalEncryptedDataPoints = 0, closed = False \<rparr>"
    by (simp add: sample_defs call_defs)
  have d0: "batchEncryptedData (deployed sample_fhe 0xA1 sample_unopened) 0 = []"
    by (simp add: sample_defs call_defs)
  show ?thesis
    using t2 submission_before_first_batch [OF refl c p q i t,
        where ?st2.0 = "deployed sample_fhe 0xA1 sample_unopened" and ?s2.0 = "0xA1"
        and ?t2.0 = 200 and r = 9]
    by (simp add: c o q b0 d0)
qed

subsection \<open>The cooldown\<close>

lemma cooldown_check_cases:
  "(case checked_add a c of None \<Rightarrow> Some Panic_0x11
    | Some limit \<Rightarrow> if (t :: uint256) < limit then Some CooldownActive else None)
   = (if 2 ^ 256 \<le> unat a + unat c then Some Panic_0x11
      else if unat t < unat a + unat c then Some CooldownActive else None)"
proof (cases "unat a + unat c < 2 ^ 256")
  case True
  then have "unat (a + c) = unat a + unat c" using unat_add_lem [of a c] by simp
  then show ?thesis using True by (simp add: checked_add_def word_less_nat_alt)
next
  case False
  then show ?thesis by (simp add: checked_add_def)
qed

lemma checkSubmissionCooldown_cases:
  "checkSubmissionCooldown st s t
   = (if 2 ^ 256 \<le> unat (lastSubmissionTime st s) + unat (cooldownSeconds st)
      then Some Panic_0x11
      else if unat t < unat (lastSubmissionTime st s) + unat (cooldownSeconds st)
      then Some CooldownActive else None)"
  unfolding checkSubmissionCooldown_def by (rule cooldown_check_cases)

lemma checkDecryptionCooldown_cases:
  "checkDecryptionCooldown st s t
   = (if 2 ^ 256 \<le> unat (lastDecryptionRequestTime st s) + unat (cooldownSeconds st)
      then Some Panic_0x11
      else if unat t < unat (lastDecryptionRequestTime st s) + unat (cooldownSeconds st)
      then Some CooldownActive else None)"
  unfolding checkDecryptionCooldown_def by (rule cooldown_check_cases)

lemma submit_success:
  assumes "submitEncryptedData env st s t x y z = Inr (st', evs)"
  shows "isProvider st' s" and "\<not> paused st'" and "cooldownSeconds st' = cooldownSeconds st"
    and "lastSubmissionTime st' s = t" and "\<not> closed (batches st' (currentBatchId st'))"
    and "\<not> unat t < unat (lastSubmissionTime st s) + unat (cooldownSeconds st)"
  using assms
  by (auto simp: submitEncryptedData_def require_ok_def onlyProvider_def whenNotPaused_def
      checkSubmissionCooldown_cases initIfNeeded_def Let_def split: option.splits if_splits)

text \<open>
  C6 as stated does not hold: a cooldown is active exactly when
  \<open>now < lastActionTime + cooldownSeconds\<close>, but the contract adds with checked
  arithmetic. In the sample run where the owner sets the cooldown to \<open>2^256 - 1\<close>
  after the provider's submission at time 100, the provider's call at time 200 is below
  \<open>100 + (2^256 - 1)\<close> and reverts with \<open>Panic(0x11)\<close>, not with \<open>CooldownActive\<close>.
\<close>

theorem cooldown_overflow_counterexample:
  "isProvider (deployed sample_fhe 0xA1 sample_long_cooldown) 0xB2
   \<and> \<not> paused (deployed sample_fhe 0xA1 sample_long_cooldown)
   \<and> unat (200 :: uint256)
       < unat (lastSubmissionTime (deployed sample_fhe 0xA1 sample_long_cooldown) 0xB2)
         + unat (cooldownSeconds (deployed sample_fhe 0xA1 sample_long_cooldown))
   \<and> submitEncryptedData sample_fhe (deployed sample_fhe 0xA1 sample_long_cooldown)
        0xB2 200 5 6 7 = Inl Panic_0x11
   \<and> submitEncryptedData sample_fhe (deployed sample_fhe 0xA1 sample_long_cooldown)
        0xB2 200 5 6 7 \<noteq> Inl CooldownActive"
  by (simp add: sample_defs call_defs)

text \<open>
  C6, amended: for a provider's submission and for the owner's decryption request,
  contract not paused, when \<open>lastActionTime[actor] + cooldownSeconds\<close> is below
  \<open>2^256\<close> the call reverts with \<open>CooldownActive\<close> exactly when
  \<open>now < lastActionTime[actor] + cooldownSeconds\<close>; when the sum reaches \<open>2^256\<close>
  the call reverts with \<open>Panic(0x11)\<close>. A successful action sets
  \<open>lastActionTime[actor]\<close> to \<open>now\<close>. After an accepted submission at time \<open>t\<close>,
  the same provider's next submission before \<open>t + cooldownSeconds\<close> reverts with
  \<open>CooldownActive\<close>, and one at or after \<open>t + cooldownSeconds\<close>, with initialised
  ciphertexts, succeeds.
\<close>

theorem cooldown_gate:
  "(isProvider st s \<and> \<not> paused st
      \<and> unat (lastSubmissionTime st s) + unat (cooldownSeconds st) < 2 ^ 256 \<longrightarrow>
      (submitEncryptedData env st s t x y z = Inl CooldownActive
         \<longleftrightarrow> unat t < unat (lastSubmissionTime st s) + unat (cooldownSeconds st)))
   \<and> (s = owner st \<and> \<not> paused st
      \<and> unat (lastDecryptionRequestTime st s) + unat (cooldownSeconds st) < 2 ^ 256 \<longrightarrow>
      (requestBatchAnalysis env st s t b r = Inl CooldownActive
         \<longleftrightarrow> unat t < unat (lastDecryptionRequestTime st s) + unat (cooldownSeconds st)))
   \<and> (isProvider st s \<and> \<not> paused st
      \<and> 2 ^ 256 \<le> unat (lastSubmissionTime st s) + unat (cooldownSeconds st) \<longrightarrow>
      submitEncryptedData env st s t x y z = Inl Panic_0x11)
   \<and> (s = owner st \<and> \<not> paused st
      \<and> 2 ^ 256 \<le> unat (lastDecryptionRequestTime st s) + unat (cooldownSeconds st) \<longrightarrow>
      requestBatchAnalysis env st s t b r = Inl Panic_0x11)
   \<and> (submitEncryptedData env st s t x y z = Inr (st', evs) \<longrightarrow> lastSubmissionTime st' s = t)
   \<and> (requestBatchAnalysis env st s t b r = Inr (st', evs) \<longrightarrow>
        lastDecryptionRequestTime st' s = t)
   \<and> (submitEncryptedData env st s t x y z = Inr (st', evs)
      \<and> unat t + unat (cooldownSeconds st) < 2 ^ 256
      \<and> unat t2 < unat t + unat (cooldownSeconds st) \<longrightarrow>
      submitEncryptedData env st' s t2 x2 y2 z2 = Inl CooldownActive)
   \<and> (submitEncryptedData env st s t x y z = Inr (st', evs)
      \<and> unat t + unat (cooldownSeconds st) \<le> unat t2
      \<and> isInitialized env x2 \<and> isInitialized env y2 \<and> isInitialized env z2
      \<and> unat (totalEncryptedDataPoints (batches st' (currentBatchId st'))) + 1 < 2 ^ 256 \<longrightarrow>
      \<not> isl (submitEncryptedData env st' s t2 x2 y2 z2))"
proof -
  have 1: "isProvider st s \<and> \<not> paused st
      \<and> unat (lastSubmissionTime st s) + unat (cooldownSeconds st) < 2 ^ 256 \<longrightarrow>
      (submitEncryptedData env st s t x y z = Inl CooldownActive
         \<longleftrightarrow> unat t < unat (lastSubmissionTime st s) + unat (cooldownSeconds st))"
    by (auto simp: submitEncryptedData_def require_ok_def onlyProvider_def whenNotPaused_def
        checkSubmissionCooldown_cases initIfNeeded_def Let_def split: option.splits)
  have 2: "s = owner st \<and> \<not> paused st
      \<and> unat (lastDecryptionRequestTime st s) + unat (cooldownSeconds st) < 2 ^ 256 \<longrightarrow>
      (requestBatchAnalysis env st s t b r = Inl CooldownActive
         \<longleftrightarrow> unat t < unat (lastDecryptionRequestTime st s) + unat (cooldownSeconds st))"
    by (auto simp: requestBatchAnalysis_def require_ok_def onlyOwner_def whenNotPaused_def
        checkDecryptionCooldown_cases Let_def split: option.splits)
  have 3: "isProvider st s \<and> \<not> paused st
      \<and> 2 ^ 256 \<le> unat (lastSubmissionTime st s) + unat (cooldownSeconds st) \<longrightarrow>
      submitEncryptedData env st s t x y z = Inl Panic_0x11"
    by (auto simp: submitEncryptedData_def require_ok_def onlyProvider_def whenNotPaused_def
        checkSubmissionCooldown_cases)
  have 4: "s = owner st \<and> \<not> paused st
      \<and> 2 ^ 256 \<le> unat (lastDecryptionRequestTime st s) + unat (cooldownSeconds st) \<longrightarrow>
      requestBatchAnalysis env st s t b r = Inl Panic_0x11"
    by (auto simp: requestBatchAnalysis_def require_ok_def onlyOwner_def whenNotPaused_def
        checkDecryptionCooldown_cases)
  have 5: "submitEncryptedData env st s t x y z = Inr (st', evs) \<longrightarrow> lastSubmissionTime st' s = t"
    using submit_success(4) by blast
  have 6: "requestBatchAnalysis env st s t b r = Inr (st', evs) \<longrightarrow>
        lastDecryptionRequestTime st' s = t"
    by (auto simp: requestBatchAnalysis_def require_ok_def Let_def split: option.splits if_splits)
  have 7: "submitEncryptedData env st s t x y z = Inr (st', evs)
      \<and> unat t + unat (cooldownSeconds st) < 2 ^ 256
      \<and> unat t2 < unat t + unat (cooldownSeconds st) \<longrightarrow>
      submitEncryptedData env st' s t2 x2 y2 z2 = Inl CooldownActive"
  proof
    assume a: "submitEncryptedData env st s t x y z = Inr (st', evs)
      \<and> unat t + unat (cooldownSeconds st) < 2 ^ 256
      \<and> unat t2 < unat t + unat (cooldownSeconds st)"
    then have ok: "submitEncryptedData env st s t x y z = Inr (st', evs)" by blast
    have "checkSubmissionCooldown st' s t2 = Some CooldownActive"
      using a submit_success(3,4) [OF ok] by (simp add: checkSubmissionCooldown_cases)
    then show "submitEncryptedData env st' s t2 x2 y2 z2 = Inl CooldownActive"
      using submit_success(1,2) [OF ok]
      by (simp add: submitEncryptedData_def require_ok_def onlyProvider_def whenNotPaused_def)
  qed
  have 8: "submitEncryptedData env st s t x y z = Inr (st', evs)
      \<and> unat t + unat (cooldownSeconds st) \<le> unat t2
      \<and> isInitialized env x2 \<and> isInitialized env y2 \<and> isInitialized env z2
      \<and> unat (totalEncryptedDataPoints (batches st' (currentBatchId st'))) + 1 < 2 ^ 256 \<longrightarrow>
      \<not> isl (submitEncryptedData env st' s t2 x2 y2 z2)"
  proof
    assume a: "submitEncryptedData env st s t x y z = Inr (st', evs)
      \<and> unat t + unat (cooldownSeconds st) \<le> unat t2
      \<and> isInitialized env x2 \<and> isInitialized env y2 \<and> isInitialized env z2
      \<and> unat (totalEncryptedDataPoints (batches st' (currentBatchId st'))) + 1 < 2 ^ 256"
    then have ok: "submitEncryptedData env st s t x y z = Inr (st', evs)" by blast
    have "unat t2 < 2 ^ 256" using unsigned_less [of t2] by simp
    then have "checkSubmissionCooldown st' s t2 = None"
      using a submit_success(3,4) [OF ok] by (simp add: checkSubmissionCooldown_cases)
    then show "\<not> isl (submitEncryptedData env st' s t2 x2 y2 z2)"
      using a submit_success(1,2,5) [OF ok]
      by (simp add: submitEncryptedData_def require_ok_def onlyProvider_def whenNotPaused_def
          initIfNeeded_def Let_def checked_add_def)
  qed
  show ?thesis using 1 2 3 4 5 6 7 8 by blast
qed

theorem cooldown_gate_witness:
  "submitEncryptedData sample_fhe
     (fst (execute sample_fhe (deployed sample_fhe 0xA1 sample_cooldown)
             \<lparr> sender = 0xB2, timestamp = 100, called = SubmitEncryptedData 5 6 7 \<rparr>))
     0xB2 130 8 9 10 = Inl CooldownActive
   \<and> \<not> isl (submitEncryptedData sample_fhe
     (fst (execute sample_fhe (deployed sample_fhe 0xA1 sample_cooldown)
             \<lparr> sender = 0xB2, timestamp = 100, called = SubmitEncryptedData 5 6 7 \<rparr>))
     0xB2 160 8 9 10)"
proof -
  have ok: "submitEncryptedData sample_fhe (deployed sample_fhe 0xA1 sample_cooldown)
              0xB2 100 5 6 7
            = Inr (fst (execute sample_fhe (deployed sample_fhe 0xA1 sample_cooldown)
                     \<lparr> sender = 0xB2, timestamp = 100, called = SubmitEncryptedData 5 6 7 \<rparr>),
                   [DataSubmitted 0xB2 1 1])"
    by (simp add: sample_defs call_defs)
  have cd: "cooldownSeconds (deployed sample_fhe 0xA1 sample_cooldown) = 60"
    by (simp add: sample_defs call_defs)
  have i: "isInitialized sample_fhe 8" "isInitialized sample_fhe 9" "isInitialized sample_fhe 10"
    by (simp_all add: sample_fhe_def)
  have n: "unat (totalEncryptedDataPoints (batches
             (fst (execute sample_fhe (deployed sample_fhe 0xA1 sample_cooldown)
                     \<lparr> sender = 0xB2, timestamp = 100, called = SubmitEncryptedData 5 6 7 \<rparr>))
             (currentBatchId
             (fst (execute sample_fhe (deployed sample_fhe 0xA1 sample_cooldown)
                     \<lparr> sender = 0xB2, timestamp = 100, called = SubmitEncryptedData 5 6 7 \<rparr>)))))
           = 1"
    by (simp add: sample_defs call_defs)
  show ?thesis
    using cooldown_gate [where env = sample_fhe
        and st = "deployed sample_fhe 0xA1 sample_cooldown" and s = "0xB2" and t = 100
        and x = 5 and y = 6 and z = 7
        and st' = "fst (execute sample_fhe (deployed sample_fhe 0xA1 sample_cooldown)
                     \<lparr> sender = 0xB2, timestamp = 100, called = SubmitEncryptedData 5 6 7 \<rparr>)"
        and evs = "[DataSubmitted 0xB2 1 1]" and ?t2.0 = 130
        and ?x2.0 = 8 and ?y2.0 = 9 and ?z2.0 = 10]
      cooldown_gate [where env = sample_fhe
        and st = "deployed sample_fhe 0xA1 sample_cooldown" and s = "0xB2" and t = 100
        and x = 5 and y = 6 and z = 7
        and st' = "fst (execute sample_fhe (deployed sample_fhe 0xA1 sample_cooldown)
                     \<lparr> sender = 0xB2, timestamp = 100, called = SubmitEncryptedData 5 6 7 \<rparr>)"
        and evs = "[DataSubmitted 0xB2 1 1]" and ?t2.0 = 160
        and ?x2.0 = 8 and ?y2.0 = 9 and ?z2.0 = 10]
    by (simp add: ok cd i n)
qed

subsection \<open>Errors\<close>

text \<open>
  C8 as stated does not hold: the provider's call at time 200 in the sample run with
  the cooldown of \<open>2^256 - 1\<close> seconds reverts with the arithmetic panic, which is
  none of the named conditions.
\<close>

theorem unnamed_panic_counterexample:
  "snd (execute sample_fhe (deployed sample_fhe 0xA1 sample_long_cooldown)
          \<lparr> sender = 0xB2, timestamp = 200, called = SubmitEncryptedData 5 6 7 \<rparr>)
     = Reverted Panic_0x11
   \<and> condition_name Panic_0x11 \<notin> set named_conditions"
  by (simp add: sample_defs call_defs named_conditions_def)

text \<open>
  C8, amended: \<open>transferOwnership\<close>, \<open>addProvider\<close>, \<open>removeProvider\<close> and
  \<open>setPaused\<close> called by anyone but the owner revert with \<open>NotOwner\<close>, the
  contract's error for the condition \<^verbatim>\<open>Unauthorized\<close>. The errors with which the
  code of each function reverts, once a call has entered it, are: \<open>NotOwner\<close> for the
  five owner-only setters; \<open>NotOwner\<close>, \<open>Paused\<close> or the arithmetic panic for
  \<open>openBatch\<close>; \<open>NotOwner\<close>, \<open>Paused\<close> or \<open>InvalidBatchId\<close> for \<open>closeBatch\<close>;
  \<open>NotProvider\<close>, \<open>Paused\<close>, \<open>CooldownActive\<close>, \<open>NotInitialized\<close>,
  \<open>BatchClosedOrInvalid\<close> or the panic for \<open>submitEncryptedData\<close>; \<open>NotOwner\<close>,
  \<open>Paused\<close>, \<open>CooldownActive\<close>, \<open>InvalidBatchId\<close> or the panic for
  \<open>requestBatchAnalysis\<close>; \<open>ReplayAttempt\<close>, \<open>StateMismatch\<close> or \<open>InvalidProof\<close>
  for \<open>myCallback\<close>. The panic \<open>Panic(0x11)\<close> arises only in \<open>openBatch\<close> and
  \<open>submitEncryptedData\<close> when a counter is at \<open>2^256 - 1\<close>, and in
  \<open>submitEncryptedData\<close> and \<open>requestBatchAnalysis\<close> when
  \<open>lastActionTime + cooldownSeconds\<close> reaches \<open>2^256\<close>.
\<close>

theorem errors_are_named:
  "(s \<noteq> owner st \<longrightarrow>
      transferOwnership st s a = Inl NotOwner \<and> addProvider st s a = Inl NotOwner
      \<and> removeProvider st s a = Inl NotOwner \<and> setPaused st s q = Inl NotOwner
      \<and> condition_name NotOwner = ''Unauthorized'')
   \<and> (dispatch env st s t c = Inl e \<longrightarrow>
        e \<in> (case c of
               TransferOwnership a' \<Rightarrow> {NotOwner}
             | AddProvider a' \<Rightarrow> {NotOwner}
             | RemoveProvider a' \<Rightarrow> {NotOwner}
             | SetPaused q' \<Rightarrow> {NotOwner}
             | SetCooldownSeconds n \<Rightarrow> {NotOwner}
             | OpenBatch \<Rightarrow> {NotOwner, Paused, Panic_0x11}
             | CloseBatch b \<Rightarrow> {NotOwner, Paused, InvalidBatchId}
             | SubmitEncryptedData x y z \<Rightarrow>
                 {NotProvider, Paused, CooldownActive, Panic_0x11, NotInitialized,
                  BatchClosedOrInvalid}
             | RequestBatchAnalysis b r \<Rightarrow>
                 {NotOwner, Paused, CooldownActive, Panic_0x11, InvalidBatchId}
             | MyCallback r cs p \<Rightarrow> {ReplayAttempt, StateMismatch, InvalidProof}))
   \<and> (dispatch env st s t c = Inl Panic_0x11 \<longrightarrow>
        (c = OpenBatch \<and> unat (currentBatchId st) + 1 = 2 ^ 256)
        \<or> (is_submission c
            \<and> (2 ^ 256 \<le> unat (lastSubmissionTime st s) + unat (cooldownSeconds st)
                \<or> unat (totalEncryptedDataPoints (batches st (currentBatchId st))) + 1
                    = 2 ^ 256))
        \<or> ((\<exists>b r. c = RequestBatchAnalysis b r)
            \<and> 2 ^ 256 \<le> unat (lastDecryptionRequestTime st s) + unat (cooldownSeconds st)))"
proof -
  have 1: "s \<noteq> owner st \<longrightarrow>
      transferOwnership st s a = Inl NotOwner \<and> addProvider st s a = Inl NotOwner
      \<and> removeProvider st s a = Inl NotOwner \<and> setPaused st s q = Inl NotOwner
      \<and> condition_name NotOwner = ''Unauthorized''"
    by (simp add: transferOwnership_def addProvider_def removeProvider_def setPaused_def
        require_ok_def onlyOwner_def)
  have 2: "dispatch env st s t c = Inl e \<longrightarrow>
        e \<in> (case c of
               TransferOwnership a' \<Rightarrow> {NotOwner}
             | AddProvider a' \<Rightarrow> {NotOwner}
             | RemoveProvider a' \<Rightarrow> {NotOwner}
             | SetPaused q' \<Rightarrow> {NotOwner}
             | SetCooldownSeconds n \<Rightarrow> {NotOwner}
             | OpenBatch \<Rightarrow> {NotOwner, Paused, Panic_0x11}
             | CloseBatch b \<Rightarrow> {NotOwner, Paused, InvalidBatchId}
             | SubmitEncryptedData x y z \<Rightarrow>
                 {NotProvider, Paused, CooldownActive, Panic_0x11, NotInitialized,
                  BatchClosedOrInvalid}
             | RequestBatchAnalysis b r \<Rightarrow>
                 {NotOwner, Paused, CooldownActive, Panic_0x11, InvalidBatchId}
             | MyCallback r cs p \<Rightarrow> {ReplayAttempt, StateMismatch, InvalidProof})"
  proof (cases c)
    case OpenBatch
    then show ?thesis
      by (auto simp: openBatch_def require_ok_def onlyOwner_def whenNotPaused_def
          split: option.splits if_splits)
  next
    case (SubmitEncryptedData x y z)
    then show ?thesis
      by (auto simp: submitEncryptedData_def require_ok_def onlyProvider_def whenNotPaused_def
          checkSubmissionCooldown_cases initIfNeeded_def Let_def split: option.splits if_splits)
  next
    case (RequestBatchAnalysis b r)
    then show ?thesis
      by (auto simp: requestBatchAnalysis_def require_ok_def onlyOwner_def whenNotPaused_def
          checkDecryptionCooldown_cases Let_def split: option.splits if_splits)
  next
    case (TransferOwnership a)
    then show ?thesis
      by (auto simp: transferOwnership_def require_ok_def onlyOwner_def Let_def split: if_splits)
  next
    case (AddProvider a)
    then show ?thesis
      by (auto simp: addProvider_def require_ok_def onlyOwner_def split: if_splits)
  next
    case (RemoveProvider a)
    then show ?thesis
      by (auto simp: removeProvider_def require_ok_def onlyOwner_def split: if_splits)
  next
    case (SetPaused q)
    then show ?thesis
      by (auto simp: setPaused_def require_ok_def onlyOwner_def split: if_splits)
  next
    case (SetCooldownSeconds n)
    then show ?thesis
      by (auto simp: setCooldownSeconds_def require_ok_def onlyOwner_def Let_def split: if_splits)
  next
    case (CloseBatch k)
    then show ?thesis
      by (auto simp: closeBatch_def require_ok_def onlyOwner_def whenNotPaused_def
          split: if_splits)
  next
    case (MyCallback r c p)
    then show ?thesis
      by (auto simp: myCallback_def Let_def split: if_splits)
  qed
  have inc: "\<And>w :: uint256. checked_add w 1 = None \<Longrightarrow> unat w + 1 = 2 ^ 256"
  proof -
    fix w :: uint256
    assume "checked_add w 1 = None"
    then have "\<not> unat w + 1 < 2 ^ 256" by (simp add: checked_add_def split: if_splits)
    moreover have "unat w < 2 ^ 256" using unsigned_less [of w] by simp
    ultimately show "unat w + 1 = 2 ^ 256" by simp
  qed
  have 3: "dispatch env st s t c = Inl Panic_0x11 \<longrightarrow>
        (c = OpenBatch \<and> unat (currentBatchId st) + 1 = 2 ^ 256)
        \<or> (is_submission c
            \<and> (2 ^ 256 \<le> unat (lastSubmissionTime st s) + unat (cooldownSeconds st)
                \<or> unat (totalEncryptedDataPoints (batches st (currentBatchId st))) + 1
                    = 2 ^ 256))
        \<or> ((\<exists>b r. c = RequestBatchAnalysis b r)
            \<and> 2 ^ 256 \<le> unat (lastDecryptionRequestTime st s) + unat (cooldownSeconds st))"
  proof (cases c)
    case OpenBatch
    then show ?thesis using inc [of "currentBatchId st"]
      by (auto simp: openBatch_def require_ok_def onlyOwner_def whenNotPaused_def
          split: option.splits if_splits)
  next
    case (SubmitEncryptedData x y z)
    then show ?thesis
      using inc [of "totalEncryptedDataPoints (batches st (currentBatchId st))"]
      by (auto simp: submitEncryptedData_def require_ok_def onlyProvider_def whenNotPaused_def
          checkSubmissionCooldown_cases initIfNeeded_def Let_def split: option.splits if_splits)
  next
    case (RequestBatchAnalysis b r)
    then show ?thesis
      by (auto simp: requestBatchAnalysis_def require_ok_def onlyOwner_def whenNotPaused_def
          checkDecryptionCooldown_cases Let_def split: option.splits if_splits)
  next
    case (TransferOwnership a)
    then show ?thesis
      by (auto simp: transferOwnership_def require_ok_def onlyOwner_def Let_def split: if_splits)
  next
    case (AddProvider a)
    then show ?thesis
      by (auto simp: addProvider_def require_ok_def onlyOwner_def split: if_splits)
  next
    case (RemoveProvider a)
    then show ?thesis
      by (auto simp: removeProvider_def require_ok_def onlyOwner_def split: if_splits)
  next
    case (SetPaused q)
    then show ?thesis
      by (auto simp: setPaused_def require_ok_def onlyOwner_def split: if_splits)
  next
    case (SetCooldownSeconds n)
    then show ?thesis
      by (auto simp: setCooldownSeconds_def require_ok_def onlyOwner_def Let_def split: if_splits)
  next
    case (CloseBatch k)
    then show ?thesis
      by (auto simp: closeBatch_def require_ok_def onlyOwner_def whenNotPaused_def
          split: if_splits)
  next
    case (MyCallback r c p)
    then show ?thesis
      by (auto simp: myCallback_def Let_def split: if_splits)
  qed
  show ?thesis using 1 2 3 by blast
qed

theorem errors_are_named_witness:
  "owner (deployed sample_fhe 0xA1 sample_open) \<noteq> 0xE5
   \<and> transferOwnership (deployed sample_fhe 0xA1 sample_open) 0xE5 0xE5 = Inl NotOwner
   \<and> addProvider (deployed sample_fhe 0xA1 sample_open) 0xE5 0xE5 = Inl NotOwner
   \<and> removeProvider (deployed sample_fhe 0xA1 sample_open) 0xE5 0xE5 = Inl NotOwner
   \<and> setPaused (deployed sample_fhe 0xA1 sample_open) 0xE5 True = Inl NotOwner"
proof -
  have o: "owner (deployed sample_fhe 0xA1 sample_open) = 0xA1"
    by (simp add: sample_defs call_defs)
  show ?thesis
    using errors_are_named [where st = "deployed sample_fhe 0xA1 sample_open"
        and s = "0xE5" and a = "0xE5" and q = True]
    by (simp add: o)
qed

end
